theory Spec2Isabelle
  imports Main "HOL-Library.Word" "HOL-Library.Signed_Division" "HOL-Library.Multiset"
begin

unbundle bit_operations_syntax

section \<open>The numeric types a policy can be instantiated with\<close>

text \<open>
  Every policy of \<^verbatim>\<open>mshadow/base.h\<close> is a struct of static member templates over a
  numeric type \<^verbatim>\<open>DType\<close>. The template parameter is modelled by dictionary passing:
  a \<open>dtype\<close> holds the built-in operations of the numeric type that the templates
  use (\<^verbatim>\<open>+ - * / < ==\<close> and the conversion of an \<^verbatim>\<open>int\<close> literal), and every
  member template takes the dictionary as its first argument.

  Division is the one built-in operation that can be undefined (C++ \<^verbatim>\<open>int\<close> division
  by zero, and \<^verbatim>\<open>INT_MIN / -1\<close>); \<open>dt_div\<close> returns \<open>None\<close> exactly there.
\<close>

record 'a dtype =
  dt_add :: "'a \<Rightarrow> 'a \<Rightarrow> 'a"
  dt_sub :: "'a \<Rightarrow> 'a \<Rightarrow> 'a"
  dt_mul :: "'a \<Rightarrow> 'a \<Rightarrow> 'a"
  dt_div :: "'a \<Rightarrow> 'a \<Rightarrow> 'a option"
  dt_less :: "'a \<Rightarrow> 'a \<Rightarrow> bool"
  dt_eq :: "'a \<Rightarrow> 'a \<Rightarrow> bool"
  dt_of_int :: "int \<Rightarrow> 'a"

text \<open>
  \<^verbatim>\<open>limits::MinValue<DType>\<close> is declared for every \<^verbatim>\<open>DType\<close> and specialised for
  \<^verbatim>\<open>float\<close>, \<^verbatim>\<open>double\<close> and \<^verbatim>\<open>int\<close>. A numeric type that has the specialisation is a
  \<open>dtype\<close> extended by the value the specialisation returns.
\<close>

record 'a limits = "'a dtype" +
  MinValue :: 'a

subsection \<open>C++ \<^verbatim>\<open>int\<close>: 32-bit two's complement\<close>

type_synonym int32 = "32 word"

text \<open>\<^verbatim>\<open>INT_MIN\<close> of \<^verbatim>\<open><climits>\<close> for a 32-bit \<^verbatim>\<open>int\<close>.\<close>

definition INT_MIN :: int32 where
  "INT_MIN = 0x80000000"

definition int_less :: "int32 \<Rightarrow> int32 \<Rightarrow> bool" where
  "int_less a b = (sint a < sint b)"

text \<open>
  \<^verbatim>\<open>a / b\<close> on \<^verbatim>\<open>int\<close> truncates towards zero; it is undefined for \<^verbatim>\<open>b == 0\<close> and
  for the one quotient that does not fit.
\<close>

definition int_div :: "int32 \<Rightarrow> int32 \<Rightarrow> int32 option" where
  "int_div a b =
     (if b = 0 \<or> (a = INT_MIN \<and> b = - 1) then None
      else Some (word_of_int (sint a sdiv sint b)))"

subsection \<open>\<^verbatim>\<open>float\<close> and \<^verbatim>\<open>double\<close>: IEEE 754 binary32 and binary64\<close>

text \<open>
  A floating-point value is its bit pattern: a word of \<open>n\<close> bits with \<open>m\<close> fraction bits
  (\<open>n = 32\<close>, \<open>m = 23\<close> for \<^verbatim>\<open>float\<close>; \<open>n = 64\<close>, \<open>m = 52\<close> for \<^verbatim>\<open>double\<close>). The top
  bit is the sign; the remaining \<open>n - 1\<close> bits, read as a number, are the magnitude
  (biased exponent and fraction).
\<close>

type_synonym float32 = "32 word"
type_synonym float64 = "64 word"

definition fsign :: "'a::len word \<Rightarrow> bool" where
  "fsign w = (2 ^ (LENGTH('a) - 1) \<le> unat w)"

definition fmag :: "'a::len word \<Rightarrow> nat" where
  "fmag w = unat w mod 2 ^ (LENGTH('a) - 1)"

definition fmk :: "bool \<Rightarrow> nat \<Rightarrow> 'a::len word" where
  "fmk s g = of_nat (if s then 2 ^ (LENGTH('a) - 1) + g else g)"

text \<open>The magnitude of infinity: exponent all ones, fraction zero. Above it: NaN.\<close>

definition inf_mag :: "nat \<Rightarrow> nat \<Rightarrow> nat" where
  "inf_mag n m = 2 ^ (n - 1) - 2 ^ m"

definition is_nan :: "nat \<Rightarrow> 'a::len word \<Rightarrow> bool" where
  "is_nan m w = (inf_mag LENGTH('a) m < fmag w)"

definition is_inf :: "nat \<Rightarrow> 'a::len word \<Rightarrow> bool" where
  "is_inf m w = (fmag w = inf_mag LENGTH('a) m)"

text \<open>
  NaN results, as the SSE instructions of the x86-64 build produce them. An operation
  with a NaN operand returns its first NaN operand with the quiet bit (the top fraction
  bit) set. An invalid operation on other operands (\<open>inf - inf\<close>, \<open>inf * 0\<close>, \<open>0 / 0\<close>,
  \<open>inf / inf\<close>) returns the default NaN: sign set, quiet bit set, rest of the fraction 0.
\<close>

definition quiet :: "nat \<Rightarrow> 'a::len word \<Rightarrow> 'a word" where
  "quiet m w = w OR push_bit (m - 1) 1"

definition nan_operand :: "nat \<Rightarrow> 'a::len word \<Rightarrow> 'a word \<Rightarrow> 'a word" where
  "nan_operand m a b = (if is_nan m a then quiet m a else quiet m b)"

definition default_nan :: "nat \<Rightarrow> 'a::len word" where
  "default_nan m = fmk True (inf_mag LENGTH('a) m + 2 ^ (m - 1))"

text \<open>
  The number a magnitude stands for, as a multiple of the smallest subnormal
  \<open>2 ^ (1 - bias - m)\<close>: the fraction itself when the exponent field is 0, and
  \<open>(2 ^ m + fraction) * 2 ^ (exponent - 1)\<close> otherwise. On the magnitude of infinity
  this is the first power of two beyond every finite value, which is all a comparison
  needs.
\<close>

definition fexact :: "nat \<Rightarrow> nat \<Rightarrow> nat" where
  "fexact m g =
     (if g div 2 ^ m = 0 then g else (2 ^ m + g mod 2 ^ m) * 2 ^ (g div 2 ^ m - 1))"

definition fval :: "nat \<Rightarrow> 'a::len word \<Rightarrow> int" where
  "fval m w = (if fsign w then - int (fexact m (fmag w)) else int (fexact m (fmag w)))"

text \<open>The number of bits of a natural number.\<close>

fun bitlen :: "nat \<Rightarrow> nat" where
  "bitlen n = (if n = 0 then 0 else Suc (bitlen (n div 2)))"

text \<open>\<open>p / q\<close> rounded to the nearest natural number, a tie to the even one.\<close>

definition round_half_even :: "nat \<Rightarrow> nat \<Rightarrow> nat" where
  "round_half_even p q =
     (if q < 2 * (p mod q) \<or> (2 * (p mod q) = q \<and> odd (p div q)) then p div q + 1
      else p div q)"

text \<open>
  Round to nearest, ties to even: the magnitude of the value nearest to \<open>p / q\<close>
  (in multiples of the smallest subnormal). With \<open>k\<close> the exponent field minus one,
  values are \<open>2 ^ k\<close> apart; a result at or beyond the magnitude of infinity is infinity.
\<close>

definition fround :: "nat \<Rightarrow> nat \<Rightarrow> nat \<Rightarrow> nat \<Rightarrow> nat" where
  "fround n m p q =
     (let k = bitlen (p div q) - (m + 1)
      in min (k * 2 ^ m + round_half_even p (q * 2 ^ k)) (inf_mag n m))"

text \<open>\<open>bias + m - 1\<close>: the number 1 is \<open>2 ^ unit_exp\<close> smallest subnormals.\<close>

definition unit_exp :: "nat \<Rightarrow> nat \<Rightarrow> nat" where
  "unit_exp n m = 2 ^ (n - m - 2) - 2 + m"

definition fneg :: "'a::len word \<Rightarrow> 'a word" where
  "fneg w = fmk (\<not> fsign w) (fmag w)"

definition fadd :: "nat \<Rightarrow> 'a::len word \<Rightarrow> 'a word \<Rightarrow> 'a word" where
  "fadd m a b =
     (if is_nan m a \<or> is_nan m b then nan_operand m a b
      else if is_inf m a then
        (if is_inf m b \<and> fsign a \<noteq> fsign b then default_nan m else a)
      else if is_inf m b then b
      else if fval m a + fval m b = 0 then fmk (fsign a \<and> fsign b) 0
      else fmk (fval m a + fval m b < 0)
             (fround LENGTH('a) m (nat \<bar>fval m a + fval m b\<bar>) 1))"

definition fsub :: "nat \<Rightarrow> 'a::len word \<Rightarrow> 'a word \<Rightarrow> 'a word" where
  "fsub m a b =
     (if is_nan m a \<or> is_nan m b then nan_operand m a b else fadd m a (fneg b))"

definition fmul :: "nat \<Rightarrow> 'a::len word \<Rightarrow> 'a word \<Rightarrow> 'a word" where
  "fmul m a b =
     (if is_nan m a \<or> is_nan m b then nan_operand m a b
      else if is_inf m a \<or> is_inf m b then
        (if fmag a = 0 \<or> fmag b = 0 then default_nan m
         else fmk (fsign a \<noteq> fsign b) (inf_mag LENGTH('a) m))
      else fmk (fsign a \<noteq> fsign b)
             (fround LENGTH('a) m (fexact m (fmag a) * fexact m (fmag b))
                (2 ^ unit_exp LENGTH('a) m)))"

definition fdiv :: "nat \<Rightarrow> 'a::len word \<Rightarrow> 'a word \<Rightarrow> 'a word" where
  "fdiv m a b =
     (if is_nan m a \<or> is_nan m b then nan_operand m a b
      else if is_inf m a then
        (if is_inf m b then default_nan m
         else fmk (fsign a \<noteq> fsign b) (inf_mag LENGTH('a) m))
      else if is_inf m b then fmk (fsign a \<noteq> fsign b) 0
      else if fmag b = 0 then
        (if fmag a = 0 then default_nan m
         else fmk (fsign a \<noteq> fsign b) (inf_mag LENGTH('a) m))
      else fmk (fsign a \<noteq> fsign b)
             (fround LENGTH('a) m (fexact m (fmag a) * 2 ^ unit_exp LENGTH('a) m)
                (fexact m (fmag b))))"

definition float_of_int :: "nat \<Rightarrow> int \<Rightarrow> 'a::len word" where
  "float_of_int m i =
     fmk (i < 0) (fround LENGTH('a) m (nat \<bar>i\<bar> * 2 ^ unit_exp LENGTH('a) m) 1)"

text \<open>\<^verbatim>\<open><\<close> and \<^verbatim>\<open>==\<close>: false when an operand is NaN; \<open>+0\<close> and \<open>-0\<close> are equal.\<close>

definition float_less :: "nat \<Rightarrow> 'a::len word \<Rightarrow> 'a word \<Rightarrow> bool" where
  "float_less m a b = (\<not> is_nan m a \<and> \<not> is_nan m b \<and> fval m a < fval m b)"

definition float_eq :: "nat \<Rightarrow> 'a::len word \<Rightarrow> 'a word \<Rightarrow> bool" where
  "float_eq m a b = (\<not> is_nan m a \<and> \<not> is_nan m b \<and> fval m a = fval m b)"

text \<open>
  The conversion \<^verbatim>\<open>float\<close> to \<^verbatim>\<open>double\<close> is exact; a NaN keeps its sign and its
  fraction (moved to the top 23 fraction bits) and is made quiet.
\<close>

definition double_of_float :: "float32 \<Rightarrow> float64" where
  "double_of_float w =
     (if is_nan 23 w then
        fmk (fsign w) (inf_mag 64 52 + (fmag (quiet 23 w) - inf_mag 32 23) * 2 ^ 29)
      else if is_inf 23 w then fmk (fsign w) (inf_mag 64 52)
      else fmk (fsign w)
             (fround 64 52 (fexact 23 (fmag w) * 2 ^ (unit_exp 64 52 - unit_exp 32 23)) 1))"

text \<open>\<^verbatim>\<open>FLT_MAX\<close> and \<^verbatim>\<open>DBL_MAX\<close> of \<^verbatim>\<open><cfloat>\<close>: the largest finite values.\<close>

definition FLT_MAX :: float32 where
  "FLT_MAX = 0x7F7FFFFF"

definition DBL_MAX :: float64 where
  "DBL_MAX = 0x7FEFFFFFFFFFFFFF"

text \<open>Minus infinity, the value below every other one.\<close>

definition neg_inf :: "nat \<Rightarrow> 'a::len word" where
  "neg_inf m = fmk True (inf_mag LENGTH('a) m)"

text \<open>
  A natural number \<open>k\<close> of smallest subnormals is a finite value of the format when
  rounding leaves it as it is.
\<close>

definition representable :: "nat \<Rightarrow> nat \<Rightarrow> nat \<Rightarrow> bool" where
  "representable n m k =
     (fround n m k 1 < inf_mag n m \<and> fexact m (fround n m k 1) = k)"

text \<open>
  The values \<open>xs\<close> are finite and, added in this order to the number \<open>s\<close>, every partial
  sum is a finite value of the format: no step of the summation has to round.
\<close>

fun sums_exact :: "nat \<Rightarrow> int \<Rightarrow> 'a::len word list \<Rightarrow> bool" where
  "sums_exact m s [] = True"
| "sums_exact m s (x # xs) =
     (fmag x < inf_mag LENGTH('a) m \<and>
      representable LENGTH('a) m (nat \<bar>s + fval m x\<bar>) \<and>
      sums_exact m (s + fval m x) xs)"

section \<open>\<^verbatim>\<open>namespace mshadow\<close>\<close>

text \<open>\<^verbatim>\<open>typedef float default_real_t;\<close>\<close>

type_synonym default_real_t = float32

subsection \<open>\<^verbatim>\<open>namespace op\<close>: operators\<close>

definition mul_Map :: "('a, 'z) dtype_scheme \<Rightarrow> 'a \<Rightarrow> 'a \<Rightarrow> 'a" where
  "mul_Map T a b = dt_mul T a b"

definition plus_Map :: "('a, 'z) dtype_scheme \<Rightarrow> 'a \<Rightarrow> 'a \<Rightarrow> 'a" where
  "plus_Map T a b = dt_add T a b"

definition minus_Map :: "('a, 'z) dtype_scheme \<Rightarrow> 'a \<Rightarrow> 'a \<Rightarrow> 'a" where
  "minus_Map T a b = dt_sub T a b"

definition div_Map :: "('a, 'z) dtype_scheme \<Rightarrow> 'a \<Rightarrow> 'a \<Rightarrow> 'a option" where
  "div_Map T a b = dt_div T a b"

definition right_Map :: "'a \<Rightarrow> 'a \<Rightarrow> 'a" where
  "right_Map a b = b"

definition identity_Map :: "'a \<Rightarrow> 'a" where
  "identity_Map a = a"

subsection \<open>\<^verbatim>\<open>namespace sv\<close>: savers\<close>

text \<open>
  \<^verbatim>\<open>Save(DType &a, DType b)\<close> assigns to \<open>a\<close>; the model takes the old value of \<open>a\<close> and
  returns the new one. The constants are \<^verbatim>\<open>default_real_t\<close>: \<^verbatim>\<open>1.0f\<close> is
  \<open>0x3F800000\<close> and \<^verbatim>\<open>0.0f\<close> is \<open>0\<close>.
\<close>

definition saveto_Save :: "'a \<Rightarrow> 'a \<Rightarrow> 'a" where
  "saveto_Save a b = b"

definition saveto_AlphaBLAS :: default_real_t where
  "saveto_AlphaBLAS = 0x3F800000"

definition saveto_BetaBLAS :: default_real_t where
  "saveto_BetaBLAS = 0"

definition plusto_Save :: "('a, 'z) dtype_scheme \<Rightarrow> 'a \<Rightarrow> 'a \<Rightarrow> 'a" where
  "plusto_Save T a b = dt_add T a b"

definition plusto_AlphaBLAS :: default_real_t where
  "plusto_AlphaBLAS = 0x3F800000"

definition plusto_BetaBLAS :: default_real_t where
  "plusto_BetaBLAS = 0x3F800000"

definition minusto_Save :: "('a, 'z) dtype_scheme \<Rightarrow> 'a \<Rightarrow> 'a \<Rightarrow> 'a" where
  "minusto_Save T a b = dt_sub T a b"

definition minusto_AlphaBLAS :: default_real_t where
  "minusto_AlphaBLAS = fneg 0x3F800000"

definition minusto_BetaBLAS :: default_real_t where
  "minusto_BetaBLAS = 0x3F800000"

definition multo_Save :: "('a, 'z) dtype_scheme \<Rightarrow> 'a \<Rightarrow> 'a \<Rightarrow> 'a" where
  "multo_Save T a b = dt_mul T a b"

definition divto_Save :: "('a, 'z) dtype_scheme \<Rightarrow> 'a \<Rightarrow> 'a \<Rightarrow> 'a option" where
  "divto_Save T a b = dt_div T a b"

subsection \<open>\<^verbatim>\<open>namespace red\<close>: reducers\<close>

text \<open>
  \<^verbatim>\<open>Reduce(volatile DType& dst, volatile DType src)\<close> assigns to \<open>dst\<close>; the model takes
  the old value of \<open>dst\<close> and returns the new one.
\<close>

definition sum_Reduce :: "('a, 'z) dtype_scheme \<Rightarrow> 'a \<Rightarrow> 'a \<Rightarrow> 'a" where
  "sum_Reduce T dst src = dt_add T dst src"

definition sum_PartialGrad :: "('a, 'z) dtype_scheme \<Rightarrow> 'a \<Rightarrow> 'a \<Rightarrow> 'a" where
  "sum_PartialGrad T redres redsrc = dt_of_int T 1"

definition sum_InitValue :: "('a, 'z) dtype_scheme \<Rightarrow> 'a" where
  "sum_InitValue T = dt_of_int T 0"

definition MinValue_float :: float32 where
  "MinValue_float = fneg FLT_MAX"

definition MinValue_double :: float64 where
  "MinValue_double = fneg DBL_MAX"

definition MinValue_int :: int32 where
  "MinValue_int = INT_MIN"

text \<open>\<^verbatim>\<open>std::max(a, b)\<close> is \<^verbatim>\<open>(a < b) ? b : a\<close>.\<close>

definition maximum_Reduce :: "('a, 'z) dtype_scheme \<Rightarrow> 'a \<Rightarrow> 'a \<Rightarrow> 'a" where
  "maximum_Reduce T dst src = (if dt_less T dst src then src else dst)"

definition maximum_PartialGrad :: "('a, 'z) dtype_scheme \<Rightarrow> 'a \<Rightarrow> 'a \<Rightarrow> 'a" where
  "maximum_PartialGrad T redres redsrc =
     (if dt_eq T redres redsrc then dt_of_int T 1 else dt_of_int T 0)"

definition maximum_InitValue :: "'a limits \<Rightarrow> 'a" where
  "maximum_InitValue T = MinValue T"

subsection \<open>The three instantiations with a \<^verbatim>\<open>limits::MinValue\<close>\<close>

definition DType_int :: "int32 limits" where
  "DType_int =
     \<lparr>dt_add = (+), dt_sub = (-), dt_mul = (*), dt_div = int_div, dt_less = int_less,
      dt_eq = (=), dt_of_int = word_of_int, MinValue = MinValue_int\<rparr>"

definition float_div :: "nat \<Rightarrow> 'a::len word \<Rightarrow> 'a word \<Rightarrow> 'a word option" where
  "float_div m a b = Some (fdiv m a b)"

definition DType_float :: "float32 limits" where
  "DType_float =
     \<lparr>dt_add = fadd 23, dt_sub = fsub 23, dt_mul = fmul 23, dt_div = float_div 23,
      dt_less = float_less 23, dt_eq = float_eq 23, dt_of_int = float_of_int 23,
      MinValue = MinValue_float\<rparr>"

definition DType_double :: "float64 limits" where
  "DType_double =
     \<lparr>dt_add = fadd 52, dt_sub = fsub 52, dt_mul = fmul 52, dt_div = float_div 52,
      dt_less = float_less 52, dt_eq = float_eq 52, dt_of_int = float_of_int 52,
      MinValue = MinValue_double\<rparr>"

subsection \<open>The policies as tags\<close>

text \<open>
  The structs carry no data: a policy is chosen by naming its type. The tags below name
  the structs, and the functions over them select the member of the named struct.
  \<open>OPType\<close> is the \<^verbatim>\<open>typedef ... OPType\<close> of a saver; \<open>AlphaBLAS\<close> and \<open>BetaBLAS\<close>
  are \<open>None\<close> for a saver that declares no such member.
\<close>

datatype binop = op_mul | op_plus | op_minus | op_div | op_right

datatype saver = sv_saveto | sv_plusto | sv_minusto | sv_multo | sv_divto

datatype reducer = red_sum | red_maximum

fun op_Map :: "('a, 'z) dtype_scheme \<Rightarrow> binop \<Rightarrow> 'a \<Rightarrow> 'a \<Rightarrow> 'a option" where
  "op_Map T op_mul a b = Some (mul_Map T a b)"
| "op_Map T op_plus a b = Some (plus_Map T a b)"
| "op_Map T op_minus a b = Some (minus_Map T a b)"
| "op_Map T op_div a b = div_Map T a b"
| "op_Map T op_right a b = Some (right_Map a b)"

fun sv_Save :: "('a, 'z) dtype_scheme \<Rightarrow> saver \<Rightarrow> 'a \<Rightarrow> 'a \<Rightarrow> 'a option" where
  "sv_Save T sv_saveto a b = Some (saveto_Save a b)"
| "sv_Save T sv_plusto a b = Some (plusto_Save T a b)"
| "sv_Save T sv_minusto a b = Some (minusto_Save T a b)"
| "sv_Save T sv_multo a b = Some (multo_Save T a b)"
| "sv_Save T sv_divto a b = divto_Save T a b"

fun OPType :: "saver \<Rightarrow> binop" where
  "OPType sv_saveto = op_right"
| "OPType sv_plusto = op_plus"
| "OPType sv_minusto = op_minus"
| "OPType sv_multo = op_mul"
| "OPType sv_divto = op_div"

fun AlphaBLAS :: "saver \<Rightarrow> default_real_t option" where
  "AlphaBLAS sv_saveto = Some saveto_AlphaBLAS"
| "AlphaBLAS sv_plusto = Some plusto_AlphaBLAS"
| "AlphaBLAS sv_minusto = Some minusto_AlphaBLAS"
| "AlphaBLAS sv_multo = None"
| "AlphaBLAS sv_divto = None"

fun BetaBLAS :: "saver \<Rightarrow> default_real_t option" where
  "BetaBLAS sv_saveto = Some saveto_BetaBLAS"
| "BetaBLAS sv_plusto = Some plusto_BetaBLAS"
| "BetaBLAS sv_minusto = Some minusto_BetaBLAS"
| "BetaBLAS sv_multo = None"
| "BetaBLAS sv_divto = None"

definition exposes_BLAS :: "saver \<Rightarrow> bool" where
  "exposes_BLAS s = (AlphaBLAS s \<noteq> None \<and> BetaBLAS s \<noteq> None)"

fun red_Reduce :: "('a, 'z) dtype_scheme \<Rightarrow> reducer \<Rightarrow> 'a \<Rightarrow> 'a \<Rightarrow> 'a" where
  "red_Reduce T red_sum dst src = sum_Reduce T dst src"
| "red_Reduce T red_maximum dst src = maximum_Reduce T dst src"

fun red_PartialGrad :: "('a, 'z) dtype_scheme \<Rightarrow> reducer \<Rightarrow> 'a \<Rightarrow> 'a \<Rightarrow> 'a" where
  "red_PartialGrad T red_sum redres redsrc = sum_PartialGrad T redres redsrc"
| "red_PartialGrad T red_maximum redres redsrc = maximum_PartialGrad T redres redsrc"

fun red_InitValue :: "'a limits \<Rightarrow> reducer \<Rightarrow> 'a" where
  "red_InitValue T red_sum = sum_InitValue T"
| "red_InitValue T red_maximum = maximum_InitValue T"

text \<open>
  Every call the core offers, and its outcome: \<open>Some\<close> the value returned (for
  \<^verbatim>\<open>Save\<close> and \<^verbatim>\<open>Reduce\<close>, the value left in the destination), \<open>None\<close> when the call
  has no defined outcome.
\<close>

datatype 'a call =
    Call_Map binop 'a 'a
  | Call_identity 'a
  | Call_Save saver 'a 'a
  | Call_Reduce reducer 'a 'a
  | Call_InitValue reducer
  | Call_PartialGrad reducer 'a 'a

fun outcome :: "'a limits \<Rightarrow> 'a call \<Rightarrow> 'a option" where
  "outcome T (Call_Map p a b) = op_Map T p a b"
| "outcome T (Call_identity a) = Some (identity_Map a)"
| "outcome T (Call_Save s a b) = sv_Save T s a b"
| "outcome T (Call_Reduce r dst src) = Some (red_Reduce T r dst src)"
| "outcome T (Call_InitValue r) = Some (red_InitValue T r)"
| "outcome T (Call_PartialGrad r redres redsrc) = Some (red_PartialGrad T r redres redsrc)"

section \<open>Operators and savers\<close>

lemma op_Map_total: "op_Map T p a b = None \<longleftrightarrow> p = op_div \<and> dt_div T a b = None"
  by (cases p) (simp_all add: div_Map_def)

lemma sv_Save_total: "sv_Save T s a b = None \<longleftrightarrow> s = sv_divto \<and> dt_div T a b = None"
  by (cases s) (simp_all add: divto_Save_def)

text \<open>
  C7. For every numeric type \<open>T\<close> and all values \<open>a\<close>, \<open>b\<close> of it: \<^verbatim>\<open>mul::Map(a, b)\<close> is
  the type's \<open>a * b\<close>, \<^verbatim>\<open>plus::Map\<close> its \<open>a + b\<close>, \<^verbatim>\<open>minus::Map\<close> its \<open>a - b\<close>,
  \<^verbatim>\<open>div::Map\<close> its \<open>a / b\<close> (undefined exactly where the type's division is),
  \<^verbatim>\<open>right::Map(a, b)\<close> is \<open>b\<close> and \<^verbatim>\<open>identity::Map(a)\<close> is \<open>a\<close>. The second half
  spells the same out on \<^verbatim>\<open>int\<close> (wrap-around arithmetic, truncating division) and on
  \<^verbatim>\<open>float\<close> and \<^verbatim>\<open>double\<close> (IEEE arithmetic).
\<close>

theorem C7_operator_maps:
  "mul_Map T a b = dt_mul T a b \<and> plus_Map T a b = dt_add T a b \<and>
   minus_Map T a b = dt_sub T a b \<and> div_Map T a b = dt_div T a b \<and>
   right_Map a b = b \<and> identity_Map a = a \<and>
   mul_Map DType_int i j = i * j \<and> plus_Map DType_int i j = i + j \<and>
   minus_Map DType_int i j = i - j \<and> div_Map DType_int i j = int_div i j \<and>
   mul_Map DType_float x y = fmul 23 x y \<and> plus_Map DType_float x y = fadd 23 x y \<and>
   minus_Map DType_float x y = fsub 23 x y \<and> div_Map DType_float x y = Some (fdiv 23 x y) \<and>
   mul_Map DType_double u v = fmul 52 u v \<and> plus_Map DType_double u v = fadd 52 u v \<and>
   minus_Map DType_double u v = fsub 52 u v \<and> div_Map DType_double u v = Some (fdiv 52 u v)"
  by (simp add: mul_Map_def plus_Map_def minus_Map_def div_Map_def right_Map_def
      identity_Map_def DType_int_def DType_float_def DType_double_def float_div_def)

text \<open>
  C5. For each of the five savers, every numeric type \<open>T\<close> and all values \<open>dest_old\<close>,
  \<open>src\<close>: \<^verbatim>\<open>Save(dest, src)\<close> started with \<open>dest = dest_old\<close> leaves in \<open>dest\<close> the value
  \<^verbatim>\<open>OPType::Map(dest_old, src)\<close>, where \<open>OPType\<close> is the operator the saver declares:
  \<open>right\<close>, \<open>plus\<close>, \<open>minus\<close>, \<open>mul\<close>, \<open>div\<close>.
\<close>

theorem C5_save_is_OPType_Map:
  "saveto_Save dest_old src = right_Map dest_old src \<and>
   plusto_Save T dest_old src = plus_Map T dest_old src \<and>
   minusto_Save T dest_old src = minus_Map T dest_old src \<and>
   multo_Save T dest_old src = mul_Map T dest_old src \<and>
   divto_Save T dest_old src = div_Map T dest_old src \<and>
   sv_Save T s dest_old src = op_Map T (OPType s) dest_old src \<and>
   map OPType [sv_saveto, sv_plusto, sv_minusto, sv_multo, sv_divto] =
     [op_right, op_plus, op_minus, op_mul, op_div]"
  by (cases s)
    (simp_all add: saveto_Save_def right_Map_def plusto_Save_def plus_Map_def
      minusto_Save_def minus_Map_def multo_Save_def mul_Map_def divto_Save_def div_Map_def)

text \<open>
  C10. \<^verbatim>\<open>red::sum::Reduce\<close> and \<^verbatim>\<open>sv::plusto::Save\<close> compute the same update: for
  every numeric type \<open>T\<close> and all \<open>dst_old\<close>, \<open>src\<close>, both leave the type's
  \<open>dst_old + src\<close> in the destination.
\<close>

theorem C10_sum_Reduce_is_plusto_Save:
  "sum_Reduce T dst_old src = plusto_Save T dst_old src \<and>
   sum_Reduce T dst_old src = dt_add T dst_old src \<and>
   sum_Reduce DType_int i j = i + j \<and> plusto_Save DType_int i j = i + j \<and>
   sum_Reduce DType_float x y = fadd 23 x y \<and> plusto_Save DType_float x y = fadd 23 x y \<and>
   sum_Reduce DType_double u v = fadd 52 u v \<and> plusto_Save DType_double u v = fadd 52 u v"
  by (simp add: sum_Reduce_def plusto_Save_def DType_int_def DType_float_def DType_double_def)

text \<open>
  C1, as the source has it. Three of the five savers declare \<^verbatim>\<open>AlphaBLAS()\<close> and
  \<^verbatim>\<open>BetaBLAS()\<close>: \<open>saveto\<close>, \<open>plusto\<close> and \<open>minusto\<close>; \<open>multo\<close> and \<open>divto\<close> declare
  neither and consist of \<^verbatim>\<open>Save\<close> and \<open>OPType\<close> alone.
\<close>

theorem C1_three_savers_expose_BLAS:
  "{s. exposes_BLAS s} = {sv_saveto, sv_plusto, sv_minusto} \<and>
   AlphaBLAS sv_multo = None \<and> BetaBLAS sv_multo = None \<and>
   AlphaBLAS sv_divto = None \<and> BetaBLAS sv_divto = None"
proof -
  have "exposes_BLAS s \<longleftrightarrow> s = sv_saveto \<or> s = sv_plusto \<or> s = sv_minusto" for s
    by (cases s) (simp_all add: exposes_BLAS_def)
  then show ?thesis by auto
qed

text \<open>
  C1 as the specification states it (only \<open>saveto\<close> and \<open>plusto\<close> declare the constants,
  \<open>minusto\<close> does not) fails at \<open>minusto\<close>, which declares both.
\<close>

theorem C1_minusto_exposes_BLAS:
  "AlphaBLAS sv_minusto = Some minusto_AlphaBLAS \<and>
   BetaBLAS sv_minusto = Some minusto_BetaBLAS \<and>
   exposes_BLAS sv_minusto \<and> sv_minusto \<notin> {sv_saveto, sv_plusto}"
  by (simp add: exposes_BLAS_def)

section \<open>Bit patterns, values and order of floating-point numbers\<close>

lemma fmag_less: "fmag (w::'a::len word) < 2 ^ (LENGTH('a) - 1)"
  by (simp add: fmag_def)

lemma two_pow_len: "(2::nat) ^ LENGTH('a::len) = 2 * 2 ^ (LENGTH('a) - 1)"
  by (metis len_gt_0 power_eq_if less_numeral_extra(3))

lemma unat_sign_mag:
  "unat (w::'a::len word) = (if fsign w then 2 ^ (LENGTH('a) - 1) else 0) + fmag w"
proof -
  have "unat w < 2 ^ LENGTH('a)" by (rule unsigned_less)
  then have lt: "unat w < 2 * 2 ^ (LENGTH('a) - 1)"
    by (simp only: two_pow_len)
  show ?thesis
  proof (cases "fsign w")
    case True
    then have le: "2 ^ (LENGTH('a) - 1) \<le> unat w" by (simp add: fsign_def)
    then have "unat w mod 2 ^ (LENGTH('a) - 1) = unat w - 2 ^ (LENGTH('a) - 1)"
      using lt by (simp add: mod_if le_mod_geq)
    with True le show ?thesis by (simp add: fmag_def)
  next
    case False
    then show ?thesis by (simp add: fsign_def fmag_def)
  qed
qed

lemma fmk_sign_mag: "fmk (fsign w) (fmag w) = w"
proof -
  have "fmk (fsign w) (fmag w) = (of_nat (unat w) :: 'a word)"
    unfolding fmk_def using unat_sign_mag [of w] by (simp split: if_splits)
  then show ?thesis by simp
qed

lemma unat_fmk:
  "g < 2 ^ (LENGTH('a) - 1) \<Longrightarrow>
   unat (fmk s g :: 'a::len word) = (if s then 2 ^ (LENGTH('a) - 1) + g else g)"
  by (simp add: fmk_def unat_of_nat two_pow_len)

lemma fsign_fmk: "g < 2 ^ (LENGTH('a) - 1) \<Longrightarrow> fsign (fmk s g :: 'a::len word) = s"
  by (simp add: fsign_def unat_fmk)

lemma fmag_fmk: "g < 2 ^ (LENGTH('a) - 1) \<Longrightarrow> fmag (fmk s g :: 'a::len word) = g"
  by (simp add: fmag_def unat_fmk)

lemma float_eqI:
  assumes "fsign a = fsign b" and "fmag a = fmag b"
  shows "a = b"
proof -
  have "a = fmk (fsign a) (fmag a)" by (simp add: fmk_sign_mag)
  also have "\<dots> = fmk (fsign b) (fmag b)" using assms by simp
  also have "\<dots> = b" by (rule fmk_sign_mag)
  finally show ?thesis .
qed

lemma fexact_small: "g < 2 ^ m \<Longrightarrow> fexact m g = g"
  by (simp add: fexact_def)

lemma fexact_normal:
  "2 ^ m \<le> g \<Longrightarrow> fexact m g = (2 ^ m + g mod 2 ^ m) * 2 ^ (g div 2 ^ m - 1)"
  by (simp add: fexact_def div_eq_0_iff)

lemma fexact_lower: "2 ^ m \<le> g \<Longrightarrow> 2 ^ (m + (g div 2 ^ m - 1)) \<le> fexact m g"
  by (simp add: fexact_normal power_add)

lemma fexact_upper: "2 ^ m \<le> g \<Longrightarrow> fexact m g < 2 ^ (m + g div 2 ^ m)"
proof -
  assume le: "2 ^ m \<le> g"
  then have pos: "0 < g div 2 ^ m" by (simp add: div_greater_zero_iff)
  have "(2 ^ m + g mod 2 ^ m) < 2 * 2 ^ m" by simp
  then have "(2 ^ m + g mod 2 ^ m) * 2 ^ (g div 2 ^ m - 1) < 2 * 2 ^ m * 2 ^ (g div 2 ^ m - 1)"
    by (simp del: mult_Suc_right)
  also have "\<dots> = 2 ^ (m + g div 2 ^ m)"
    using pos by (simp add: power_add power_eq_if [of _ "g div 2 ^ m"])
  finally show ?thesis using le by (simp add: fexact_normal)
qed

lemma fexact_strict_mono:
  assumes "g < h"
  shows "fexact m g < fexact m h"
proof (cases "h < 2 ^ m")
  case True
  with assms show ?thesis by (simp add: fexact_small)
next
  case hn: False
  show ?thesis
  proof (cases "g < 2 ^ m")
    case True
    have "fexact m g < 2 ^ m" using True by (simp add: fexact_small)
    also have "\<dots> \<le> 2 ^ (m + (h div 2 ^ m - 1))" by simp
    also have "\<dots> \<le> fexact m h" using hn fexact_lower [of m h] by simp
    finally show ?thesis .
  next
    case gn: False
    have dle: "g div 2 ^ m \<le> h div 2 ^ m" using assms by (simp add: div_le_mono)
    show ?thesis
    proof (cases "g div 2 ^ m = h div 2 ^ m")
      case True
      have "g mod 2 ^ m < h mod 2 ^ m"
        using assms True by (metis add_less_cancel_left mult_div_mod_eq)
      then show ?thesis using gn hn True by (simp add: fexact_normal)
    next
      case False
      with dle have lt: "g div 2 ^ m < h div 2 ^ m" by simp
      have "fexact m g < 2 ^ (m + g div 2 ^ m)" using gn by (simp add: fexact_upper)
      also have "\<dots> \<le> 2 ^ (m + (h div 2 ^ m - 1))" using lt by simp
      also have "\<dots> \<le> fexact m h" using hn fexact_lower [of m h] by simp
      finally show ?thesis .
    qed
  qed
qed

lemma fexact_inj: "fexact m g = fexact m h \<Longrightarrow> g = h"
  by (metis fexact_strict_mono less_irrefl linorder_neqE_nat)

lemma fexact_mono: "g \<le> h \<Longrightarrow> fexact m g \<le> fexact m h"
  by (metis fexact_strict_mono le_eq_less_or_eq)

lemma inf_mag_less: "inf_mag LENGTH('a::len) m < 2 ^ (LENGTH('a) - 1)"
  by (simp add: inf_mag_def)

lemma neg_inf_iff:
  "(x :: 'a::len word) = neg_inf m \<longleftrightarrow> fsign x \<and> fmag x = inf_mag LENGTH('a) m"
proof -
  have "fsign (neg_inf m :: 'a word)" and "fmag (neg_inf m :: 'a word) = inf_mag LENGTH('a) m"
    unfolding neg_inf_def using inf_mag_less [where 'a = 'a, of m]
    by (simp_all add: fsign_fmk fmag_fmk)
  then show ?thesis by (auto intro: float_eqI)
qed

lemma fval_nonneg: "\<not> fsign w \<Longrightarrow> 0 \<le> fval m w"
  by (simp add: fval_def)

lemma fval_neg: "fsign w \<Longrightarrow> fval m w = - int (fexact m (fmag w))"
  by (simp add: fval_def)

lemma float_less_lowest_iff:
  fixes x b :: "'a::len word"
  assumes sb: "fsign b" and mb: "Suc (fmag b) = inf_mag LENGTH('a) m"
  shows "float_less m x b \<longleftrightarrow> x = neg_inf m"
proof
  assume "float_less m x b"
  then have nx: "fmag x \<le> inf_mag LENGTH('a) m" and lt: "fval m x < fval m b"
    by (simp_all add: float_less_def is_nan_def)
  have sx: "fsign x"
  proof (rule ccontr)
    assume "\<not> fsign x"
    then have "0 \<le> fval m x" by (rule fval_nonneg)
    moreover have "fval m b \<le> 0" using sb by (simp add: fval_neg)
    ultimately show False using lt by simp
  qed
  have "fexact m (fmag b) < fexact m (fmag x)"
    using lt sb sx by (simp add: fval_neg)
  then have "fmag b < fmag x"
    by (metis fexact_mono not_le)
  with nx mb have "fmag x = inf_mag LENGTH('a) m" by simp
  with sx show "x = neg_inf m" by (simp add: neg_inf_iff)
next
  assume "x = neg_inf m"
  then have sx: "fsign x" and mx: "fmag x = inf_mag LENGTH('a) m"
    by (simp_all add: neg_inf_iff)
  have "fexact m (fmag b) < fexact m (fmag x)"
    using mb mx by (intro fexact_strict_mono) simp
  then show "float_less m x b"
    using sb sx mb mx by (simp add: float_less_def is_nan_def fval_neg)
qed

lemma float_less_from_lowest_iff:
  fixes x b :: "'a::len word"
  assumes sb: "fsign b" and mb: "Suc (fmag b) = inf_mag LENGTH('a) m" and pb: "0 < fmag b"
  shows "float_less m b x \<longleftrightarrow> \<not> is_nan m x \<and> x \<noteq> neg_inf m \<and> x \<noteq> b"
proof -
  have nb: "\<not> is_nan m b" using mb by (simp add: is_nan_def)
  show ?thesis
  proof (cases "is_nan m x")
    case True
    then show ?thesis by (simp add: float_less_def)
  next
    case nx: False
    show ?thesis
    proof (cases "fsign x")
      case False
      then have "0 \<le> fval m x" by (rule fval_nonneg)
      moreover have "fval m b < 0"
        using sb pb fexact_strict_mono [of 0 "fmag b" m] by (simp add: fval_neg)
      ultimately have "float_less m b x" using nx nb by (simp add: float_less_def)
      moreover have "x \<noteq> neg_inf m" using False by (simp add: neg_inf_iff)
      moreover have "x \<noteq> b" using False sb by auto
      ultimately show ?thesis using nx by simp
    next
      case sx: True
      have "float_less m b x \<longleftrightarrow> fexact m (fmag x) < fexact m (fmag b)"
        using nx nb sx sb by (simp add: float_less_def fval_neg)
      also have "\<dots> \<longleftrightarrow> fmag x < fmag b"
        by (metis fexact_strict_mono fexact_mono not_le)
      also have "\<dots> \<longleftrightarrow> x \<noteq> neg_inf m \<and> x \<noteq> b"
      proof -
        have le: "fmag x \<le> inf_mag LENGTH('a) m" using nx by (simp add: is_nan_def)
        have "x = b \<longleftrightarrow> fmag x = fmag b"
          using sx sb by (auto intro: float_eqI)
        moreover have "x = neg_inf m \<longleftrightarrow> fmag x = inf_mag LENGTH('a) m"
          using sx by (simp add: neg_inf_iff)
        ultimately show ?thesis using le mb by auto
      qed
      finally show ?thesis using nx by simp
    qed
  qed
qed

subsection \<open>Rounding of exactly representable values\<close>

declare bitlen.simps [simp del]

lemma bitlen_0: "bitlen 0 = 0"
  by (simp add: bitlen.simps)

lemma bitlen_pos: "n \<noteq> 0 \<Longrightarrow> bitlen n = Suc (bitlen (n div 2))"
  by (subst bitlen.simps) simp

lemma bitlen_unique: "2 ^ k \<le> n \<Longrightarrow> n < 2 ^ Suc k \<Longrightarrow> bitlen n = Suc k"
proof (induction k arbitrary: n)
  case 0
  then have "n = 1" by simp
  then show ?case by (simp add: bitlen_pos bitlen_0)
next
  case (Suc k)
  then have "2 ^ k \<le> n div 2" "n div 2 < 2 ^ Suc k" "n \<noteq> 0" by auto
  with Suc.IH [of "n div 2"] show ?case by (simp add: bitlen_pos)
qed

lemma bitlen_le: "n < 2 ^ k \<Longrightarrow> bitlen n \<le> k"
proof (induction k arbitrary: n)
  case 0
  then show ?case by (simp add: bitlen_0)
next
  case (Suc k)
  show ?case
  proof (cases "n = 0")
    case True
    then show ?thesis by (simp add: bitlen_0)
  next
    case False
    from Suc.prems have "n div 2 < 2 ^ k" by auto
    with Suc.IH [of "n div 2"] False show ?thesis by (simp add: bitlen_pos)
  qed
qed

lemma round_half_even_exact: "0 < d \<Longrightarrow> round_half_even (a * d) d = a"
  by (simp add: round_half_even_def)

lemma bitlen_fexact:
  assumes "2 ^ m \<le> g"
  shows "bitlen (fexact m g) = m + g div 2 ^ m"
proof -
  from assms have pos: "0 < g div 2 ^ m" by (simp add: div_greater_zero_iff)
  then obtain e where e: "g div 2 ^ m = Suc e" by (cases "g div 2 ^ m") auto
  have "2 ^ (m + e) \<le> fexact m g" using fexact_lower [OF assms] e by simp
  moreover have "fexact m g < 2 ^ Suc (m + e)" using fexact_upper [OF assms] e by simp
  ultimately have "bitlen (fexact m g) = Suc (m + e)" by (rule bitlen_unique)
  with e show ?thesis by simp
qed

lemma fround_exact:
  assumes "0 < q"
  shows "fround n m (fexact m g * q) q = min g (inf_mag n m)"
proof (cases "g < 2 ^ m")
  case True
  then have "bitlen g \<le> m" by (rule bitlen_le)
  then show ?thesis
    using True assms by (simp add: fround_def fexact_small round_half_even_exact)
next
  case False
  then have le: "2 ^ m \<le> g" by simp
  then have pos: "0 < g div 2 ^ m" by (simp add: div_greater_zero_iff)
  then obtain e where e: "g div 2 ^ m = Suc e" by (cases "g div 2 ^ m") auto
  have k: "bitlen (fexact m g) - (m + 1) = e"
    using bitlen_fexact [OF le] e by simp
  have ex: "fexact m g = (2 ^ m + g mod 2 ^ m) * 2 ^ e"
    using fexact_normal [OF le] e by simp
  have "round_half_even (fexact m g * q) (q * 2 ^ e) = 2 ^ m + g mod 2 ^ m"
    using round_half_even_exact [of "q * 2 ^ e" "2 ^ m + g mod 2 ^ m"] assms
    by (simp add: ex mult_ac)
  moreover have "e * 2 ^ m + (2 ^ m + g mod 2 ^ m) = g"
    using e div_mult_mod_eq [of g "2 ^ m"] by simp
  ultimately show ?thesis
    using assms k by (simp add: fround_def)
qed

lemma fexact_0: "fexact m 0 = 0"
  by (simp add: fexact_def)

lemma fexact_eq_0_iff: "fexact m g = 0 \<longleftrightarrow> g = 0"
  using fexact_inj [of m g 0] by (auto simp: fexact_0)

lemma fmag_fneg: "fmag (fneg w) = fmag w"
  unfolding fneg_def using fmag_less [of w] by (simp add: fmag_fmk)

lemma fsign_fneg: "fsign (fneg w) = (\<not> fsign w)"
  unfolding fneg_def using fmag_less [of w] by (simp add: fsign_fmk)

lemma is_nan_fneg: "is_nan m (fneg w) = is_nan m w"
  by (simp add: is_nan_def fmag_fneg)

lemma is_inf_fneg: "is_inf m (fneg w) = is_inf m w"
  by (simp add: is_inf_def fmag_fneg)

lemma fval_fneg: "fval m (fneg w) = - fval m w"
  by (simp add: fval_def fmag_fneg fsign_fneg)

lemma fmag_take_bit: "fmag (w :: 'a::len word) = unat (take_bit (LENGTH('a) - 1) w)"
proof -
  have "unat (take_bit (LENGTH('a) - 1) w) = take_bit (LENGTH('a) - 1) (unat w)"
    by (rule unsigned_take_bit_eq)
  then show ?thesis by (simp add: fmag_def take_bit_eq_mod)
qed

lemma fmag_quiet: "fmag w \<le> fmag (quiet m w)"
proof -
  have "take_bit (LENGTH('a) - 1) w \<le>
      take_bit (LENGTH('a) - 1) w OR take_bit (LENGTH('a) - 1) (push_bit (m - 1) 1)"
    for w :: "'a::len word"
    by (rule le_word_or2)
  then show ?thesis
    by (simp add: fmag_take_bit quiet_def word_le_nat_alt take_bit_or [symmetric]
        del: take_bit_or)
qed

lemma is_nan_quiet: "is_nan m w \<Longrightarrow> is_nan m (quiet m w)"
  using fmag_quiet [of w m] by (simp add: is_nan_def)

lemma quiet_quiet: "quiet m (quiet m w) = quiet m w"
  by (simp add: quiet_def or.assoc)

lemma is_nan_nan_operand: "is_nan m a \<or> is_nan m b \<Longrightarrow> is_nan m (nan_operand m a b)"
  by (auto simp: nan_operand_def is_nan_quiet)

lemma fadd_nan: "is_nan m a \<or> is_nan m b \<Longrightarrow> fadd m a b = nan_operand m a b"
  by (simp add: fadd_def)

lemma fsub_nan: "is_nan m a \<or> is_nan m b \<Longrightarrow> fsub m a b = nan_operand m a b"
  by (simp add: fsub_def)

lemma fmul_nan: "is_nan m a \<or> is_nan m b \<Longrightarrow> fmul m a b = nan_operand m a b"
  by (simp add: fmul_def)

lemma fdiv_nan: "is_nan m a \<or> is_nan m b \<Longrightarrow> fdiv m a b = nan_operand m a b"
  by (simp add: fdiv_def)

lemma fadd_commute:
  assumes "\<not> (is_nan m a \<and> is_nan m b)"
  shows "fadd m a b = fadd m b a"
proof (cases "is_nan m a \<or> is_nan m b")
  case True
  with assms show ?thesis by (auto simp: fadd_nan nan_operand_def)
next
  case False
  have "a = b" if "is_inf m a" "is_inf m b" "fsign a = fsign b"
    using that by (intro float_eqI) (simp_all add: is_inf_def)
  with False show ?thesis
    by (auto simp: fadd_def add.commute)
qed

lemma fmul_unit:
  fixes a b :: "'a::len word"
  assumes one: "fexact m (fmag a) = 2 ^ unit_exp LENGTH('a) m"
    and fin: "fmag a < inf_mag LENGTH('a) m"
    and nb: "\<not> is_nan m b"
  shows "fmul m a b = fmk (fsign a \<noteq> fsign b) (fmag b)"
proof -
  have na: "\<not> is_nan m a" "\<not> is_inf m a" using fin by (simp_all add: is_nan_def is_inf_def)
  have a0: "fmag a \<noteq> 0"
  proof
    assume "fmag a = 0"
    with one have "(2::nat) ^ unit_exp LENGTH('a) m = 0" by (simp add: fexact_0)
    then show False by simp
  qed
  have i0: "inf_mag LENGTH('a) m \<noteq> 0" using fin by simp
  show ?thesis
  proof (cases "is_inf m b")
    case True
    then show ?thesis using na nb a0 i0 by (simp add: fmul_def is_inf_def)
  next
    case False
    with nb have fb: "fmag b < inf_mag LENGTH('a) m" by (simp add: is_nan_def is_inf_def)
    have "fround LENGTH('a) m (fexact m (fmag a) * fexact m (fmag b)) (2 ^ unit_exp LENGTH('a) m)
        = min (fmag b) (inf_mag LENGTH('a) m)"
      using fround_exact [of "2 ^ unit_exp LENGTH('a) m" "LENGTH('a)" m "fmag b"]
      by (simp add: one mult.commute)
    then show ?thesis using na nb False fb by (simp add: fmul_def)
  qed
qed

lemma fmul_one:
  fixes a b :: "'a::len word"
  assumes "fexact m (fmag a) = 2 ^ unit_exp LENGTH('a) m" "fmag a < inf_mag LENGTH('a) m"
    "\<not> fsign a" "\<not> is_nan m b"
  shows "fmul m a b = b"
  using fmul_unit [of m a b] assms by (simp add: fmk_sign_mag)

lemma fmul_minus_one:
  fixes a b :: "'a::len word"
  assumes "fexact m (fmag a) = 2 ^ unit_exp LENGTH('a) m" "fmag a < inf_mag LENGTH('a) m"
    "fsign a" "\<not> is_nan m b"
  shows "fmul m a b = fneg b"
  using fmul_unit [of m a b] assms by (simp add: fneg_def)

lemma blas_minus_form:
  fixes d s :: "'a::len word"
  assumes al: "fexact m (fmag alpha) = 2 ^ unit_exp LENGTH('a) m"
      "fmag alpha < inf_mag LENGTH('a) m" "fsign alpha"
    and be: "fexact m (fmag beta) = 2 ^ unit_exp LENGTH('a) m"
      "fmag beta < inf_mag LENGTH('a) m" "\<not> fsign beta"
    and n: "\<not> (is_nan m d \<and> is_nan m s)"
  shows "fsub m d s = fadd m (fmul m alpha s) (fmul m beta d)"
proof -
  have na: "\<not> is_nan m alpha" "\<not> is_nan m beta"
    using al be by (simp_all add: is_nan_def)
  consider (s) "is_nan m s" "\<not> is_nan m d" | (d) "is_nan m d" "\<not> is_nan m s"
    | (none) "\<not> is_nan m s" "\<not> is_nan m d"
    using n by blast
  then show ?thesis
  proof cases
    case s
    then have "fmul m alpha s = quiet m s" "fmul m beta d = d"
      using na be by (simp_all add: fmul_nan nan_operand_def fmul_one)
    then show ?thesis
      using s by (simp add: fsub_nan fadd_nan nan_operand_def is_nan_quiet quiet_quiet)
  next
    case d
    then have "fmul m alpha s = fneg s" "fmul m beta d = quiet m d"
      using na al by (simp_all add: fmul_nan nan_operand_def fmul_minus_one)
    then show ?thesis
      using d by (simp add: fsub_nan fadd_nan nan_operand_def is_nan_quiet quiet_quiet
          is_nan_fneg)
  next
    case none
    then have "fmul m alpha s = fneg s" "fmul m beta d = d"
      using al be by (simp_all add: fmul_minus_one fmul_one)
    then show ?thesis
      using none by (simp add: fsub_def fadd_commute is_nan_fneg)
  qed
qed

lemma blas_minus_form_nan:
  assumes "is_nan m d" and "is_nan m s"
  shows "is_nan m (fsub m d s) \<and> is_nan m (fadd m (fmul m alpha s) (fmul m beta d))"
  using assms by (simp add: fsub_nan fadd_nan fmul_nan is_nan_nan_operand)

subsection \<open>Evaluation on bit patterns\<close>

lemmas float_eval =
  is_nan_def is_inf_def fmag_def fsign_def fmk_def inf_mag_def fval_def fexact_def
  float_less_def float_eq_def unit_exp_def

lemma float_of_int_eq:
  assumes "nat \<bar>i\<bar> * 2 ^ unit_exp LENGTH('a) m = fexact m g" and "g \<le> inf_mag LENGTH('a) m"
  shows "float_of_int m i = (fmk (i < 0) g :: 'a::len word)"
  using fround_exact [of 1 "LENGTH('a)" m g] assms by (simp add: float_of_int_def)

lemma fadd_val:
  fixes a b c :: "'a::len word"
  assumes a: "fmag a < inf_mag LENGTH('a) m" and b: "fmag b < inf_mag LENGTH('a) m"
    and c: "fmag c < inf_mag LENGTH('a) m"
    and v: "fval m a + fval m b = fval m c" and nz: "fval m c \<noteq> 0"
  shows "fadd m a b = c"
proof -
  have fin: "\<not> is_nan m a" "\<not> is_nan m b" "\<not> is_inf m a" "\<not> is_inf m b"
    using a b by (simp_all add: is_nan_def is_inf_def)
  have abs: "nat \<bar>fval m c\<bar> = fexact m (fmag c)" by (simp add: fval_def)
  have sg: "fval m c < 0 \<longleftrightarrow> fsign c" using nz by (auto simp: fval_def)
  have "fround LENGTH('a) m (nat \<bar>fval m c\<bar>) 1 = fmag c"
    using fround_exact [of 1 "LENGTH('a)" m "fmag c"] c by (simp add: abs)
  then show ?thesis
    using fin v nz sg by (simp add: fadd_def fmk_sign_mag)
qed

lemma fadd_zero_left:
  fixes b :: "'a::len word"
  assumes b: "fmag b < inf_mag LENGTH('a) m" and nz: "fmag b \<noteq> 0"
  shows "fadd m 0 b = b"
proof -
  have z: "fmag (0 :: 'a word) = 0" "fval m (0 :: 'a word) = 0"
    by (simp_all add: fmag_def fval_def fexact_0)
  have "fval m b \<noteq> 0" using nz by (simp add: fval_def fexact_eq_0_iff)
  then show ?thesis using b nz z by (intro fadd_val) simp_all
qed

lemma fround_bitlen:
  assumes "2 ^ k \<le> p div q" and "p div q < 2 ^ Suc k"
  shows "fround n m p q =
     min ((k - m) * 2 ^ m + round_half_even p (q * 2 ^ (k - m))) (inf_mag n m)"
  using bitlen_unique [OF assms] by (simp add: fround_def Let_def)

lemma one_float:
  "fexact 23 (fmag (0x3F800000 :: float32)) = 2 ^ unit_exp 32 23"
  "fmag (0x3F800000 :: float32) < inf_mag 32 23" "\<not> fsign (0x3F800000 :: float32)"
  by (simp_all add: float_eval)

lemma one_double:
  "fexact 52 (fmag (0x3FF0000000000000 :: float64)) = 2 ^ unit_exp 64 52"
  "fmag (0x3FF0000000000000 :: float64) < inf_mag 64 52" "\<not> fsign (0x3FF0000000000000 :: float64)"
  by (simp_all add: float_eval)

lemma minus_one_float:
  "fexact 23 (fmag (0xBF800000 :: float32)) = 2 ^ unit_exp 32 23"
  "fmag (0xBF800000 :: float32) < inf_mag 32 23" "fsign (0xBF800000 :: float32)"
  by (simp_all add: float_eval)

lemma minus_one_double:
  "fexact 52 (fmag (0xBFF0000000000000 :: float64)) = 2 ^ unit_exp 64 52"
  "fmag (0xBFF0000000000000 :: float64) < inf_mag 64 52" "fsign (0xBFF0000000000000 :: float64)"
  by (simp_all add: float_eval)

lemma default_nan_float: "default_nan 23 = (0xFFC00000 :: float32)" "is_nan 23 (default_nan 23 :: float32)"
  by (simp_all add: default_nan_def float_eval)

lemma default_nan_double:
  "default_nan 52 = (0xFFF8000000000000 :: float64)" "is_nan 52 (default_nan 52 :: float64)"
  by (simp_all add: default_nan_def float_eval)

lemma minusto_AlphaBLAS_bits: "minusto_AlphaBLAS = 0xBF800000"
  by (simp add: minusto_AlphaBLAS_def fneg_def float_eval)

lemma float_of_int_float:
  "float_of_int 23 0 = (0 :: float32)" "float_of_int 23 1 = (0x3F800000 :: float32)"
  "float_of_int 23 (- 1) = (0xBF800000 :: float32)"
  by (simp_all add: float_of_int_eq [where g = 0] float_of_int_eq [where g = "0x3F800000"]
      float_eval)

lemma float_of_int_double:
  "float_of_int 52 0 = (0 :: float64)" "float_of_int 52 1 = (0x3FF0000000000000 :: float64)"
  "float_of_int 52 (- 1) = (0xBFF0000000000000 :: float64)"
  by (simp_all add: float_of_int_eq [where g = 0] float_of_int_eq [where g = "0x3FF0000000000000"]
      float_eval)

lemma double_of_float_one:
  "double_of_float 0x3F800000 = 0x3FF0000000000000"
  "double_of_float 0xBF800000 = 0xBFF0000000000000"
  using fround_exact [of 1 64 52 "0x3FF0000000000000"]
  by (simp_all add: double_of_float_def float_eval)

subsection \<open>The arithmetic on known values\<close>

text \<open>
  The scenario \<open>dest = 10\<close>, \<open>src = 4\<close>: \<^verbatim>\<open>plusto::Save\<close> leaves 14 and
  \<^verbatim>\<open>divto::Save\<close> leaves 2.5 on \<^verbatim>\<open>float\<close> (2 on \<^verbatim>\<open>int\<close>). Then an inexact
  quotient (\<open>1 / 3\<close>), an overflow, a product, the two divisions by zero, and NaN
  results: of two NaN operands the first, a signalling NaN made quiet, and the default
  NaN of \<open>inf - inf\<close> and \<open>inf * 0\<close>.
\<close>

lemma fdiv_val:
  fixes a b :: "'a::len word"
  assumes a: "fmag a < inf_mag LENGTH('a) m" and b: "fmag b < inf_mag LENGTH('a) m"
    and nz: "fmag b \<noteq> 0" and g: "g \<le> inf_mag LENGTH('a) m"
    and v: "fexact m (fmag a) * 2 ^ unit_exp LENGTH('a) m = fexact m g * fexact m (fmag b)"
  shows "fdiv m a b = fmk (fsign a \<noteq> fsign b) g"
proof -
  have fin: "\<not> is_nan m a" "\<not> is_nan m b" "\<not> is_inf m a" "\<not> is_inf m b"
    using a b by (simp_all add: is_nan_def is_inf_def)
  have "fexact m (fmag b) \<noteq> 0" using nz by (simp add: fexact_eq_0_iff)
  then have "0 < fexact m (fmag b)" by simp
  from fround_exact [OF this, of "LENGTH('a)" m g] g
  have "fround LENGTH('a) m (fexact m (fmag a) * 2 ^ unit_exp LENGTH('a) m) (fexact m (fmag b)) = g"
    by (simp add: v)
  then show ?thesis using fin nz by (simp add: fdiv_def)
qed

lemma fmul_val:
  fixes a b :: "'a::len word"
  assumes a: "fmag a < inf_mag LENGTH('a) m" and b: "fmag b < inf_mag LENGTH('a) m"
    and g: "g \<le> inf_mag LENGTH('a) m"
    and v: "fexact m (fmag a) * fexact m (fmag b) = fexact m g * 2 ^ unit_exp LENGTH('a) m"
  shows "fmul m a b = fmk (fsign a \<noteq> fsign b) g"
proof -
  have fin: "\<not> is_nan m a" "\<not> is_nan m b" "\<not> is_inf m a" "\<not> is_inf m b"
    using a b by (simp_all add: is_nan_def is_inf_def)
  from fround_exact [of "2 ^ unit_exp LENGTH('a) m" "LENGTH('a)" m g] g
  have "fround LENGTH('a) m (fexact m (fmag a) * fexact m (fmag b)) (2 ^ unit_exp LENGTH('a) m) = g"
    by (simp add: v)
  then show ?thesis using fin by (simp add: fmul_def)
qed

lemma scenario_float:
  "dt_of_int DType_float 10 = 0x41200000" "dt_of_int DType_float 4 = 0x40800000"
  "plusto_Save DType_float 0x41200000 0x40800000 = 0x41600000"
  "divto_Save DType_float 0x41200000 0x40800000 = Some 0x40200000"
proof -
  show "dt_of_int DType_float 10 = 0x41200000" "dt_of_int DType_float 4 = 0x40800000"
    by (simp_all add: DType_float_def float_of_int_eq [where g = "0x41200000"]
        float_of_int_eq [where g = "0x40800000"] float_eval)
  have "fadd 23 (0x41200000 :: float32) 0x40800000 = 0x41600000"
    by (rule fadd_val; simp add: float_eval)
  then show "plusto_Save DType_float 0x41200000 0x40800000 = 0x41600000"
    by (simp add: plusto_Save_def DType_float_def)
  have "fdiv 23 (0x41200000 :: float32) 0x40800000 = fmk False 0x40200000"
    by (rule fdiv_val [where g = "0x40200000", THEN trans]; simp add: float_eval)
  then show "divto_Save DType_float 0x41200000 0x40800000 = Some 0x40200000"
    by (simp add: divto_Save_def DType_float_def float_div_def fmk_def)
qed

lemma scenario_int:
  "plusto_Save DType_int 10 4 = 14" "divto_Save DType_int 10 4 = Some 2"
  by (simp_all add: plusto_Save_def divto_Save_def DType_int_def int_div_def INT_MIN_def
      signed_divide_int_def)

lemma rounding_examples:
  "fdiv 23 (0x3F800000 :: float32) 0x40400000 = 0x3EAAAAAB"
  "fadd 23 FLT_MAX FLT_MAX = (0x7F800000 :: float32)"
  "fmul 23 (0x40400000 :: float32) 0xC0E00000 = 0xC1A80000"
  "fdiv 23 (0x3F800000 :: float32) 0x80000000 = 0xFF800000"
  "fdiv 23 (0 :: float32) 0 = 0xFFC00000"
  "fadd 23 (0x7FC00001 :: float32) 0x7FC00002 = 0x7FC00001"
  "fadd 23 (0x7F800001 :: float32) 0x3F800000 = 0x7FC00001"
  "fsub 23 (0x3F800000 :: float32) 0x7FC00002 = 0x7FC00002"
  "fsub 23 (0x7F800000 :: float32) 0x7F800000 = 0xFFC00000"
  "fmul 23 (0x7F800000 :: float32) 0 = 0xFFC00000"
proof -
  show "fdiv 23 (0x3F800000 :: float32) 0x40400000 = 0x3EAAAAAB"
    by (simp add: fdiv_def float_eval fround_bitlen [where k = 147] round_half_even_def)
  show "fadd 23 FLT_MAX FLT_MAX = (0x7F800000 :: float32)"
    by (simp add: FLT_MAX_def fadd_def float_eval fround_bitlen [where k = 277]
        round_half_even_def)
  have "fmul 23 (0x40400000 :: float32) 0xC0E00000 = fmk True 0x41A80000"
    by (rule fmul_val [where g = "0x41A80000", THEN trans]; simp add: float_eval)
  then show "fmul 23 (0x40400000 :: float32) 0xC0E00000 = 0xC1A80000"
    by (simp add: fmk_def)
  show "fdiv 23 (0x3F800000 :: float32) 0x80000000 = 0xFF800000"
    "fdiv 23 (0 :: float32) 0 = 0xFFC00000"
    "fadd 23 (0x7FC00001 :: float32) 0x7FC00002 = 0x7FC00001"
    "fadd 23 (0x7F800001 :: float32) 0x3F800000 = 0x7FC00001"
    "fsub 23 (0x3F800000 :: float32) 0x7FC00002 = 0x7FC00002"
    "fsub 23 (0x7F800000 :: float32) 0x7F800000 = 0xFFC00000"
    "fmul 23 (0x7F800000 :: float32) 0 = 0xFFC00000"
    by (simp_all add: fdiv_def fadd_def fsub_def fmul_def fneg_def nan_operand_def quiet_def
        default_nan_def float_eval)
qed

section \<open>\<^verbatim>\<open>limits::MinValue\<close>\<close>

lemma sint_INT_MIN: "sint INT_MIN = - (2 ^ 31)"
  by (simp add: INT_MIN_def)

lemma int_less_INT_MIN: "\<not> int_less x INT_MIN"
  using sint_ge [of x] by (simp add: int_less_def sint_INT_MIN)

lemma int_less_from_INT_MIN: "int_less INT_MIN x \<longleftrightarrow> x \<noteq> INT_MIN"
proof -
  have "sint x = sint INT_MIN \<longleftrightarrow> x = INT_MIN"
    by (auto intro: signed_word_eqI)
  then show ?thesis
    using sint_ge [of x] by (auto simp: int_less_def sint_INT_MIN)
qed

lemma MinValue_float_bits: "MinValue_float = 0xFF7FFFFF"
  by (simp add: MinValue_float_def FLT_MAX_def fneg_def fsign_def fmag_def fmk_def)

lemma MinValue_double_bits: "MinValue_double = 0xFFEFFFFFFFFFFFFF"
  by (simp add: MinValue_double_def DBL_MAX_def fneg_def fsign_def fmag_def fmk_def)

lemma neg_inf_float_bits: "neg_inf 23 = (0xFF800000 :: float32)"
  by (simp add: neg_inf_def inf_mag_def fmk_def)

lemma neg_inf_double_bits: "neg_inf 52 = (0xFFF0000000000000 :: float64)"
  by (simp add: neg_inf_def inf_mag_def fmk_def)

lemma MinValue_float_lowest:
  "fsign MinValue_float \<and> Suc (fmag MinValue_float) = inf_mag 32 23 \<and> 0 < fmag MinValue_float"
  by (simp add: MinValue_float_bits fsign_def fmag_def inf_mag_def)

lemma MinValue_double_lowest:
  "fsign MinValue_double \<and> Suc (fmag MinValue_double) = inf_mag 64 52 \<and> 0 < fmag MinValue_double"
  by (simp add: MinValue_double_bits fsign_def fmag_def inf_mag_def)

lemma float_less_MinValue_float: "float_less 23 x MinValue_float \<longleftrightarrow> x = neg_inf 23"
  using MinValue_float_lowest by (intro float_less_lowest_iff) simp_all

lemma float_less_MinValue_double: "float_less 52 x MinValue_double \<longleftrightarrow> x = neg_inf 52"
  using MinValue_double_lowest by (intro float_less_lowest_iff) simp_all

lemma MinValue_float_less:
  "float_less 23 MinValue_float x \<longleftrightarrow> \<not> is_nan 23 x \<and> x \<noteq> neg_inf 23 \<and> x \<noteq> MinValue_float"
  using MinValue_float_lowest by (intro float_less_from_lowest_iff) simp_all

lemma MinValue_double_less:
  "float_less 52 MinValue_double x \<longleftrightarrow> \<not> is_nan 52 x \<and> x \<noteq> neg_inf 52 \<and> x \<noteq> MinValue_double"
  using MinValue_double_lowest by (intro float_less_from_lowest_iff) simp_all

text \<open>
  C2, as the source has it. \<^verbatim>\<open>MinValue<int>()\<close> is \<^verbatim>\<open>INT_MIN\<close>, bit for bit
  \<open>0x80000000\<close>, and no \<^verbatim>\<open>int\<close> is below it. \<^verbatim>\<open>MinValue<float>()\<close> is \<^verbatim>\<open>-FLT_MAX\<close>,
  bit for bit \<open>0xFF7FFFFF\<close>, and \<^verbatim>\<open>MinValue<double>()\<close> is \<^verbatim>\<open>-DBL_MAX\<close>, bit for bit
  \<open>0xFFEFFFFFFFFFFFFF\<close>: the most negative finite values. Exactly one value of the type
  compares below each of them, minus infinity (\<open>0xFF800000\<close>, \<open>0xFFF0000000000000\<close>).
\<close>

theorem C2_MinValue:
  "MinValue_int = 0x80000000 \<and> sint MinValue_int = - (2 ^ 31) \<and>
   \<not> dt_less DType_int i MinValue_int \<and>
   MinValue_float = 0xFF7FFFFF \<and> MinValue_float = fneg FLT_MAX \<and>
   (dt_less DType_float x MinValue_float \<longleftrightarrow> x = 0xFF800000) \<and>
   MinValue_double = 0xFFEFFFFFFFFFFFFF \<and> MinValue_double = fneg DBL_MAX \<and>
   (dt_less DType_double y MinValue_double \<longleftrightarrow> y = 0xFFF0000000000000) \<and>
   MinValue DType_int = MinValue_int \<and> MinValue DType_float = MinValue_float \<and>
   MinValue DType_double = MinValue_double"
  using sint_INT_MIN int_less_INT_MIN [of i]
  by (simp add: MinValue_int_def DType_int_def DType_float_def DType_double_def
      MinValue_float_bits [symmetric] MinValue_double_bits [symmetric]
      float_less_MinValue_float float_less_MinValue_double
      neg_inf_float_bits [symmetric] neg_inf_double_bits [symmetric] INT_MIN_def
      MinValue_float_def [symmetric] MinValue_double_def [symmetric])


text \<open>
  C2 as the specification states it (the value returned is the most negative value the
  type can represent) fails for \<^verbatim>\<open>float\<close>: minus infinity is a value of the type, it
  is not a NaN, and it is below \<^verbatim>\<open>MinValue<float>()\<close>.
\<close>

theorem C2_counterexample:
  "dt_less DType_float 0xFF800000 (MinValue DType_float) \<and> \<not> is_nan 23 (0xFF800000 :: float32)"
  by (simp add: DType_float_def float_less_MinValue_float neg_inf_float_bits is_nan_def fmag_def inf_mag_def)

section \<open>The \<^verbatim>\<open>maximum\<close> reducer\<close>

lemma foldl_maximum_Reduce:
  fixes T :: "('a, 'z) dtype_scheme" and v :: "'a \<Rightarrow> int"
  assumes less: "\<And>a b. dt_less T a b \<longleftrightarrow> ok a \<and> ok b \<and> v a < v b"
    and "ok d"
  shows "ok (foldl (maximum_Reduce T) d xs) \<and>
         (foldl (maximum_Reduce T) d xs = d \<or> foldl (maximum_Reduce T) d xs \<in> set xs) \<and>
         v d \<le> v (foldl (maximum_Reduce T) d xs) \<and>
         (\<forall>x\<in>set xs. ok x \<longrightarrow> v x \<le> v (foldl (maximum_Reduce T) d xs))"
  using \<open>ok d\<close>
proof (induction xs arbitrary: d)
  case Nil
  then show ?case by simp
next
  case (Cons x xs)
  let ?d = "maximum_Reduce T d x"
  have okd: "ok ?d" using Cons.prems by (simp add: maximum_Reduce_def less)
  have dx: "?d = d \<or> ?d = x" by (simp add: maximum_Reduce_def)
  have vd: "v d \<le> v ?d" by (simp add: maximum_Reduce_def less)
  have vx: "ok x \<Longrightarrow> v x \<le> v ?d"
    using Cons.prems by (simp add: maximum_Reduce_def less)
  from Cons.IH [OF okd] dx vd vx show ?case by fastforce
qed

lemma maximum_Reduce_lowest:
  fixes T :: "('a::len word, 'z) dtype_scheme"
  assumes T: "dt_less T = float_less m"
    and sb: "fsign d" and mb: "Suc (fmag d) = inf_mag LENGTH('a) m" and pb: "0 < fmag d"
  shows "maximum_Reduce T d x = x \<longleftrightarrow> \<not> is_nan m x \<and> x \<noteq> neg_inf m"
proof -
  have nd: "\<not> is_nan m d" using mb by (simp add: is_nan_def)
  have dn: "d \<noteq> neg_inf m" using mb by (auto simp: neg_inf_iff)
  show ?thesis
    using float_less_from_lowest_iff [OF sb mb pb, of x] nd dn
    by (auto simp: maximum_Reduce_def T)
qed

lemma foldl_maximum_Reduce_float:
  fixes T :: "('a::len word, 'z) dtype_scheme"
  assumes T: "dt_less T = float_less m"
    and sb: "fsign d" and mb: "Suc (fmag d) = inf_mag LENGTH('a) m" and pb: "0 < fmag d"
    and ex: "\<exists>x\<in>set xs. \<not> is_nan m x \<and> x \<noteq> neg_inf m"
  shows "foldl (maximum_Reduce T) d xs \<in> set xs \<and>
         \<not> is_nan m (foldl (maximum_Reduce T) d xs) \<and>
         (\<forall>x\<in>set xs. \<not> float_less m (foldl (maximum_Reduce T) d xs) x)"
proof -
  let ?r = "foldl (maximum_Reduce T) d xs"
  have nd: "\<not> is_nan m d" using mb by (simp add: is_nan_def)
  have less: "dt_less T a b \<longleftrightarrow> \<not> is_nan m a \<and> \<not> is_nan m b \<and> fval m a < fval m b" for a b
    by (simp add: T float_less_def)
  from foldl_maximum_Reduce [of T "\<lambda>a. \<not> is_nan m a" "fval m" d xs, OF less nd]
  have r: "\<not> is_nan m ?r" "?r = d \<or> ?r \<in> set xs"
    "\<forall>x\<in>set xs. \<not> is_nan m x \<longrightarrow> fval m x \<le> fval m ?r"
    by simp_all
  from ex obtain x where x: "x \<in> set xs" "\<not> is_nan m x" "x \<noteq> neg_inf m" by blast
  have "?r \<in> set xs"
  proof (cases "?r = d")
    case True
    with r(3) x have "fval m x \<le> fval m d" by simp
    then have "\<not> float_less m d x" by (simp add: float_less_def)
    with float_less_from_lowest_iff [OF sb mb pb, of x] x have "x = d" by simp
    with True x show ?thesis by simp
  next
    case False
    with r(2) show ?thesis by simp
  qed
  moreover have "\<forall>x\<in>set xs. \<not> float_less m ?r x"
    using r(3) by (auto simp: float_less_def)
  ultimately show ?thesis using r(1) by simp
qed

lemma foldl_maximum_Reduce_int:
  assumes "ns \<noteq> []"
  shows "foldl (maximum_Reduce DType_int) INT_MIN ns \<in> set ns \<and>
         sint (foldl (maximum_Reduce DType_int) INT_MIN ns) = Max (sint ` set ns)"
proof -
  let ?r = "foldl (maximum_Reduce DType_int) INT_MIN ns"
  have less: "dt_less DType_int a b \<longleftrightarrow> True \<and> True \<and> sint a < sint b" for a b
    by (simp add: DType_int_def int_less_def)
  from foldl_maximum_Reduce [of DType_int "\<lambda>a. True" sint INT_MIN ns, OF less]
  have r: "?r = INT_MIN \<or> ?r \<in> set ns" "\<forall>x\<in>set ns. sint x \<le> sint ?r"
    by simp_all
  from assms obtain x where x: "x \<in> set ns" by (cases ns) auto
  have mem: "?r \<in> set ns"
  proof (cases "?r = INT_MIN")
    case True
    with r(2) x have "sint x \<le> sint INT_MIN" by simp
    then have "\<not> int_less INT_MIN x" by (simp add: int_less_def)
    then have "x = INT_MIN" by (simp add: int_less_from_INT_MIN)
    with True x show ?thesis by simp
  next
    case False
    with r(1) show ?thesis by simp
  qed
  have "Max (sint ` set ns) = sint ?r"
    using mem r(2) by (intro Max_eqI) auto
  with mem show ?thesis by simp
qed


text \<open>
  C3, as the source has it. \<^verbatim>\<open>maximum::InitValue()\<close> is a left identity of
  \<^verbatim>\<open>maximum::Reduce\<close> on every \<^verbatim>\<open>int\<close>, and on exactly those \<^verbatim>\<open>float\<close> and
  \<^verbatim>\<open>double\<close> values that are neither NaN nor minus infinity. Folding \<^verbatim>\<open>Reduce\<close> from
  \<^verbatim>\<open>InitValue()\<close> over a non-empty sequence of \<^verbatim>\<open>int\<close> yields its maximum; over a
  sequence of \<^verbatim>\<open>float\<close> or \<^verbatim>\<open>double\<close> that holds at least one value other than NaN
  and minus infinity it yields an element of the sequence, not a NaN, that no element of
  the sequence exceeds.
\<close>

theorem C3_maximum_identity:
  "maximum_InitValue DType_int = INT_MIN \<and>
   maximum_Reduce DType_int (maximum_InitValue DType_int) i = i \<and>
   (ns \<noteq> [] \<longrightarrow>
      foldl (maximum_Reduce DType_int) (maximum_InitValue DType_int) ns \<in> set ns \<and>
      sint (foldl (maximum_Reduce DType_int) (maximum_InitValue DType_int) ns) =
        Max (sint ` set ns)) \<and>
   (maximum_Reduce DType_float (maximum_InitValue DType_float) x = x \<longleftrightarrow>
      \<not> is_nan 23 x \<and> x \<noteq> 0xFF800000) \<and>
   ((\<exists>x\<in>set xs. \<not> is_nan 23 x \<and> x \<noteq> 0xFF800000) \<longrightarrow>
      foldl (maximum_Reduce DType_float) (maximum_InitValue DType_float) xs \<in> set xs \<and>
      \<not> is_nan 23 (foldl (maximum_Reduce DType_float) (maximum_InitValue DType_float) xs) \<and>
      (\<forall>x\<in>set xs. \<not> dt_less DType_float
         (foldl (maximum_Reduce DType_float) (maximum_InitValue DType_float) xs) x)) \<and>
   (maximum_Reduce DType_double (maximum_InitValue DType_double) y = y \<longleftrightarrow>
      \<not> is_nan 52 y \<and> y \<noteq> 0xFFF0000000000000) \<and>
   ((\<exists>y\<in>set ys. \<not> is_nan 52 y \<and> y \<noteq> 0xFFF0000000000000) \<longrightarrow>
      foldl (maximum_Reduce DType_double) (maximum_InitValue DType_double) ys \<in> set ys \<and>
      \<not> is_nan 52 (foldl (maximum_Reduce DType_double) (maximum_InitValue DType_double) ys) \<and>
      (\<forall>y\<in>set ys. \<not> dt_less DType_double
         (foldl (maximum_Reduce DType_double) (maximum_InitValue DType_double) ys) y))"
proof -
  have i0: "maximum_InitValue DType_int = INT_MIN"
    by (simp add: maximum_InitValue_def DType_int_def MinValue_int_def)
  have i1: "maximum_Reduce DType_int INT_MIN i = i"
    using int_less_from_INT_MIN [of i] by (simp add: maximum_Reduce_def DType_int_def)
  have f0: "maximum_InitValue DType_float = MinValue_float"
    and fl: "dt_less DType_float = float_less 23"
    by (simp_all add: maximum_InitValue_def DType_float_def)
  have d0: "maximum_InitValue DType_double = MinValue_double"
    and dl: "dt_less DType_double = float_less 52"
    by (simp_all add: maximum_InitValue_def DType_double_def)
  note fm = MinValue_float_lowest [THEN conjunct1] 
    MinValue_float_lowest [THEN conjunct2, THEN conjunct1]
    MinValue_float_lowest [THEN conjunct2, THEN conjunct2]
  note dm = MinValue_double_lowest [THEN conjunct1] 
    MinValue_double_lowest [THEN conjunct2, THEN conjunct1]
    MinValue_double_lowest [THEN conjunct2, THEN conjunct2]
  have f1: "maximum_Reduce DType_float MinValue_float x = x \<longleftrightarrow>
      \<not> is_nan 23 x \<and> x \<noteq> neg_inf 23"
    using fm by (intro maximum_Reduce_lowest fl) simp_all
  have f2: "foldl (maximum_Reduce DType_float) MinValue_float xs \<in> set xs \<and>
      \<not> is_nan 23 (foldl (maximum_Reduce DType_float) MinValue_float xs) \<and>
      (\<forall>x\<in>set xs. \<not> float_less 23 (foldl (maximum_Reduce DType_float) MinValue_float xs) x)"
    if "\<exists>x\<in>set xs. \<not> is_nan 23 x \<and> x \<noteq> neg_inf 23"
    using fm that by (intro foldl_maximum_Reduce_float fl) simp_all
  have d1: "maximum_Reduce DType_double MinValue_double y = y \<longleftrightarrow>
      \<not> is_nan 52 y \<and> y \<noteq> neg_inf 52"
    using dm by (intro maximum_Reduce_lowest dl) simp_all
  have d2: "foldl (maximum_Reduce DType_double) MinValue_double ys \<in> set ys \<and>
      \<not> is_nan 52 (foldl (maximum_Reduce DType_double) MinValue_double ys) \<and>
      (\<forall>y\<in>set ys. \<not> float_less 52 (foldl (maximum_Reduce DType_double) MinValue_double ys) y)"
    if "\<exists>y\<in>set ys. \<not> is_nan 52 y \<and> y \<noteq> neg_inf 52"
    using dm that by (intro foldl_maximum_Reduce_float dl) simp_all
  show ?thesis
    unfolding i0 f0 d0 fl dl neg_inf_float_bits [symmetric] neg_inf_double_bits [symmetric]
    using i1 foldl_maximum_Reduce_int [of ns] f1 f2 d1 d2 by blast
qed

text \<open>
  C3 as the specification states it (\<^verbatim>\<open>Reduce(InitValue(), x)\<close> leaves \<open>x\<close> for every
  \<open>x\<close>, and the fold over a non-empty sequence is its maximum) fails for \<^verbatim>\<open>float\<close> at
  \<open>x\<close> minus infinity (\<open>0xFF800000\<close>): \<^verbatim>\<open>std::max(-FLT_MAX, x)\<close> is \<^verbatim>\<open>-FLT_MAX\<close>
  (\<open>0xFF7FFFFF\<close>), so the destination is not \<open>x\<close>, and the fold over the one-element
  sequence of \<open>x\<close> is not \<open>x\<close>.
\<close>

theorem C3_counterexample:
  "maximum_Reduce DType_float (maximum_InitValue DType_float) 0xFF800000 = 0xFF7FFFFF \<and>
   maximum_Reduce DType_float (maximum_InitValue DType_float) 0xFF800000 \<noteq> 0xFF800000 \<and>
   \<not> is_nan 23 (0xFF800000 :: float32) \<and>
   foldl (maximum_Reduce DType_float) (maximum_InitValue DType_float) [0xFF800000] \<noteq> 0xFF800000"
  by (simp add: maximum_Reduce_def maximum_InitValue_def DType_float_def MinValue_float_bits
      float_eval)

text \<open>
  C3 at the sequence 3, 1, 4, 1, 5 of \<^verbatim>\<open>int\<close> and of \<^verbatim>\<open>float\<close>, and at 3, 5 of
  \<^verbatim>\<open>double\<close>.
\<close>

theorem C3_maximum_identity_witness:
  "[3, 1, 4, 1, 5 :: int32] \<noteq> [] \<and>
   sint (foldl (maximum_Reduce DType_int) (maximum_InitValue DType_int) [3, 1, 4, 1, 5]) =
     Max (sint ` set [3, 1, 4, 1, 5 :: int32]) \<and>
   \<not> is_nan 23 (0x40A00000 :: float32) \<and> (0x40A00000 :: float32) \<noteq> 0xFF800000 \<and>
   foldl (maximum_Reduce DType_float) (maximum_InitValue DType_float)
     [0x40400000, 0x3F800000, 0x40800000, 0x3F800000, 0x40A00000] 
   \<in> set [0x40400000, 0x3F800000, 0x40800000, 0x3F800000, 0x40A00000] \<and>
   \<not> is_nan 52 (0x4014000000000000 :: float64) \<and>
   foldl (maximum_Reduce DType_double) (maximum_InitValue DType_double)
     [0x4008000000000000, 0x4014000000000000] \<in> set [0x4008000000000000, 0x4014000000000000]"
proof -
  note T = C3_maximum_identity [of _ "[3, 1, 4, 1, 5]" _
      "[0x40400000, 0x3F800000, 0x40800000, 0x3F800000, 0x40A00000]" _
      "[0x4008000000000000, 0x4014000000000000]"]
  have n: "[3, 1, 4, 1, 5 :: int32] \<noteq> []" by simp
  have f: "\<not> is_nan 23 (0x40A00000 :: float32)" "(0x40A00000 :: float32) \<noteq> 0xFF800000"
    and d: "\<not> is_nan 52 (0x4014000000000000 :: float64)"
      "(0x4014000000000000 :: float64) \<noteq> 0xFFF0000000000000"
    by (simp_all add: float_eval)
  have fx: "\<exists>x\<in>set [0x40400000, 0x3F800000, 0x40800000, 0x3F800000, 0x40A00000].
      \<not> is_nan 23 (x :: float32) \<and> x \<noteq> 0xFF800000"
    using f by (intro bexI [of _ "0x40A00000"]) simp_all
  have dx: "\<exists>y\<in>set [0x4008000000000000, 0x4014000000000000].
      \<not> is_nan 52 (y :: float64) \<and> y \<noteq> 0xFFF0000000000000"
    using d by (intro bexI [of _ "0x4014000000000000"]) simp_all
  from T n fx dx f d show ?thesis by blast
qed

lemma float_eq_sym: "float_eq m a b = float_eq m b a"
  by (auto simp: float_eq_def)

lemma maximum_PartialGrad_values:
  "maximum_PartialGrad DType_int r s = (if s = r then 1 else 0)"
  "maximum_PartialGrad DType_float p q = (if dt_eq DType_float q p then 0x3F800000 else 0)"
  "maximum_PartialGrad DType_double u v =
     (if dt_eq DType_double v u then 0x3FF0000000000000 else 0)"
  using float_eq_sym [of 23 p q] float_eq_sym [of 52 u v]
  by (auto simp: maximum_PartialGrad_def DType_int_def DType_float_def DType_double_def
      float_of_int_float float_of_int_double)

lemma tie_folds:
  "foldl (maximum_Reduce DType_int) (maximum_InitValue DType_int) [5, 3, 5] = 5"
  "foldl (maximum_Reduce DType_float) (maximum_InitValue DType_float)
     [0x40A00000, 0x40400000, 0x40A00000] = 0x40A00000"
  by (simp_all add: maximum_Reduce_def maximum_InitValue_def DType_int_def DType_float_def
      MinValue_int_def INT_MIN_def int_less_def MinValue_float_bits float_eval)

text \<open>
  C4. \<^verbatim>\<open>maximum::PartialGrad(r, s)\<close> is 1 when \<^verbatim>\<open>s == r\<close> and 0 otherwise, on \<^verbatim>\<open>int\<close>,
  \<^verbatim>\<open>float\<close> (1 is \<open>0x3F800000\<close>) and \<^verbatim>\<open>double\<close> (1 is \<open>0x3FF0000000000000\<close>). So in
  any sequence every element equal to the result of the fold receives the whole
  gradient 1, however many such elements there are: for 5, 3, 5 the gradients are
  1, 0, 1.
\<close>

theorem C4_maximum_PartialGrad:
  "maximum_PartialGrad DType_int r s = (if s = r then 1 else 0) \<and>
   maximum_PartialGrad DType_float p q = (if dt_eq DType_float q p then 0x3F800000 else 0) \<and>
   maximum_PartialGrad DType_double u v =
     (if dt_eq DType_double v u then 0x3FF0000000000000 else 0) \<and>
   dt_of_int DType_int 1 = 1 \<and> dt_of_int DType_float 1 = 0x3F800000 \<and>
   dt_of_int DType_double 1 = 0x3FF0000000000000 \<and>
   (\<forall>x\<in>set ns. x = foldl (maximum_Reduce DType_int) (maximum_InitValue DType_int) ns \<longrightarrow>
      maximum_PartialGrad DType_int
        (foldl (maximum_Reduce DType_int) (maximum_InitValue DType_int) ns) x = 1) \<and>
   (\<forall>x\<in>set xs.
      dt_eq DType_float x (foldl (maximum_Reduce DType_float) (maximum_InitValue DType_float) xs) \<longrightarrow>
      maximum_PartialGrad DType_float
        (foldl (maximum_Reduce DType_float) (maximum_InitValue DType_float) xs) x = 0x3F800000) \<and>
   (\<forall>y\<in>set ys.
      dt_eq DType_double y (foldl (maximum_Reduce DType_double) (maximum_InitValue DType_double) ys) \<longrightarrow>
      maximum_PartialGrad DType_double
        (foldl (maximum_Reduce DType_double) (maximum_InitValue DType_double) ys) y =
        0x3FF0000000000000) \<and>
   map (maximum_PartialGrad DType_int
          (foldl (maximum_Reduce DType_int) (maximum_InitValue DType_int) [5, 3, 5])) [5, 3, 5] =
     [1, 0, 1] \<and>
   map (maximum_PartialGrad DType_float
          (foldl (maximum_Reduce DType_float) (maximum_InitValue DType_float)
             [0x40A00000, 0x40400000, 0x40A00000])) [0x40A00000, 0x40400000, 0x40A00000] =
     [0x3F800000, 0, 0x3F800000]"
proof -
  have ex: "map (maximum_PartialGrad DType_float 0x40A00000) [0x40A00000, 0x40400000, 0x40A00000] =
     [0x3F800000, 0, 0x3F800000]"
    by (simp add: maximum_PartialGrad_values) (simp add: DType_float_def float_eval)
  have one: "dt_of_int DType_int 1 = 1" "dt_of_int DType_float 1 = 0x3F800000"
    "dt_of_int DType_double 1 = 0x3FF0000000000000"
    by (simp_all add: DType_int_def DType_float_def DType_double_def float_of_int_float
        float_of_int_double)
  show ?thesis
    unfolding tie_folds one using ex by (simp add: maximum_PartialGrad_values)
qed

text \<open>C4 at the two tied elements of the sequence 5, 3, 5.\<close>

theorem C4_maximum_PartialGrad_witness:
  "(5 :: int32) \<in> set [5, 3, 5] \<and>
   5 = foldl (maximum_Reduce DType_int) (maximum_InitValue DType_int) [5, 3, 5] \<and>
   maximum_PartialGrad DType_int
     (foldl (maximum_Reduce DType_int) (maximum_InitValue DType_int) [5, 3, 5]) 5 = 1 \<and>
   (0x40A00000 :: float32) \<in> set [0x40A00000, 0x40400000, 0x40A00000] \<and>
   dt_eq DType_float 0x40A00000 (foldl (maximum_Reduce DType_float) (maximum_InitValue DType_float)
     [0x40A00000, 0x40400000, 0x40A00000]) \<and>
   maximum_PartialGrad DType_float
     (foldl (maximum_Reduce DType_float) (maximum_InitValue DType_float)
        [0x40A00000, 0x40400000, 0x40A00000]) 0x40A00000 = 0x3F800000"
proof -
  note T = C4_maximum_PartialGrad [of _ _ _ _ _ _ "[5, 3, 5]"
      "[0x40A00000, 0x40400000, 0x40A00000]" "[]"]
  have m: "(5 :: int32) \<in> set [5, 3, 5]"
    "(0x40A00000 :: float32) \<in> set [0x40A00000, 0x40400000, 0x40A00000]" by simp_all
  have e: "dt_eq DType_float 0x40A00000 (foldl (maximum_Reduce DType_float)
     (maximum_InitValue DType_float) [0x40A00000, 0x40400000, 0x40A00000])"
    unfolding tie_folds by (simp add: DType_float_def float_eval)
  from T m e tie_folds(1) [symmetric] show ?thesis by blast
qed

section \<open>The \<^verbatim>\<open>sum\<close> reducer\<close>

lemma foldl_sum_Reduce_int: "foldl (sum_Reduce DType_int) a ns = a + sum_list ns"
  by (induction ns arbitrary: a) (simp_all add: sum_Reduce_def DType_int_def add.assoc)

lemma word_of_int_sum_list_sint: "(word_of_int (sum_list (map sint ns)) :: int32) = sum_list ns"
  by (induction ns) simp_all

lemma sint_word_of_int_fits:
  "- (2 ^ 31) \<le> k \<Longrightarrow> k < 2 ^ 31 \<Longrightarrow> sint (word_of_int k :: int32) = k"
  by (simp add: sint_sbintrunc' signed_take_bit_int_eq_self)

lemma sum_list_mset_cong:
  fixes ns :: "int32 list"
  shows "mset ns = mset ns' \<Longrightarrow> sum_list ns = sum_list ns'"
  by (metis sum_mset_sum_list)

lemma sum_InitValue_values:
  "sum_InitValue DType_int = 0" "sum_InitValue DType_float = 0" "sum_InitValue DType_double = 0"
  by (simp_all add: sum_InitValue_def DType_int_def DType_float_def DType_double_def
      float_of_int_float float_of_int_double)

lemma fadd_steps_float:
  "fadd 23 0 (0x40400000 :: float32) = 0x40400000"
  "fadd 23 (0x40400000 :: float32) 0x3F800000 = 0x40800000"
  "fadd 23 (0x40800000 :: float32) 0x40800000 = 0x41000000"
  "fadd 23 (0x41000000 :: float32) 0x3F800000 = 0x41100000"
  "fadd 23 (0x41100000 :: float32) 0x40A00000 = 0x41600000"
  by (rule fadd_val; simp add: float_eval)+

lemma fadd_steps_double:
  "fadd 52 0 (0x4008000000000000 :: float64) = 0x4008000000000000"
  "fadd 52 (0x4008000000000000 :: float64) 0x3FF0000000000000 = 0x4010000000000000"
  "fadd 52 (0x4010000000000000 :: float64) 0x4010000000000000 = 0x4020000000000000"
  "fadd 52 (0x4020000000000000 :: float64) 0x3FF0000000000000 = 0x4022000000000000"
  "fadd 52 (0x4022000000000000 :: float64) 0x4014000000000000 = 0x402C000000000000"
  by (rule fadd_val; simp add: float_eval)+

lemma fadd_steps_order:
  "fadd 23 0 (0x4B800000 :: float32) = 0x4B800000"
  "fadd 23 0 (0x3F800000 :: float32) = 0x3F800000"
  "fadd 23 (0x3F800000 :: float32) 0x3F800000 = 0x40000000"
  "fadd 23 (0x40000000 :: float32) 0x4B800000 = 0x4B800001"
  by (rule fadd_val; simp add: float_eval)+

lemma fadd_rounds: "fadd 23 (0x4B800000 :: float32) 0x3F800000 = 0x4B800000"
  by (simp add: fadd_def float_eval fround_bitlen [where k = 173] round_half_even_def)

lemma representableI: "g < inf_mag n m \<Longrightarrow> fexact m g = k \<Longrightarrow> representable n m k"
  using fround_exact [of 1 n m g] by (auto simp: representable_def)

lemma representable_iff: "representable n m k \<longleftrightarrow> (\<exists>g<inf_mag n m. fexact m g = k)"
proof
  assume "representable n m k"
  then show "\<exists>g<inf_mag n m. fexact m g = k"
    by (intro exI [of _ "fround n m k 1"]) (simp add: representable_def)
next
  assume "\<exists>g<inf_mag n m. fexact m g = k"
  then show "representable n m k" by (blast intro: representableI)
qed

lemma fadd_exact_step:
  fixes r x :: "'a::len word"
  assumes r: "fmag r < inf_mag LENGTH('a) m" and x: "fmag x < inf_mag LENGTH('a) m"
    and rep: "representable LENGTH('a) m (nat \<bar>fval m r + fval m x\<bar>)"
  shows "fmag (fadd m r x) < inf_mag LENGTH('a) m \<and>
         fval m (fadd m r x) = fval m r + fval m x"
proof -
  let ?s = "fval m r + fval m x"
  let ?g = "fround LENGTH('a) m (nat \<bar>?s\<bar>) 1"
  have fin: "\<not> is_nan m r" "\<not> is_nan m x" "\<not> is_inf m r" "\<not> is_inf m x"
    using r x by (simp_all add: is_nan_def is_inf_def)
  show ?thesis
  proof (cases "?s = 0")
    case True
    have "fmag (fmk b 0 :: 'a word) = 0" for b by (simp add: fmag_fmk)
    then show ?thesis using True fin r by (simp add: fadd_def fval_def fexact_0)
  next
    case False
    from rep have g: "?g < inf_mag LENGTH('a) m" "fexact m ?g = nat \<bar>?s\<bar>"
      by (simp_all add: representable_def)
    have lt: "?g < 2 ^ (LENGTH('a) - 1)"
      using g(1) inf_mag_less [where 'a = 'a, of m] by simp
    have res: "fadd m r x = fmk (?s < 0) ?g"
      using False fin by (simp add: fadd_def)
    have mg: "fmag (fadd m r x) = ?g" and sg: "fsign (fadd m r x) = (?s < 0)"
      unfolding res using lt by (simp_all add: fmag_fmk fsign_fmk)
    have "fval m (fadd m r x) = (if ?s < 0 then - int (nat \<bar>?s\<bar>) else int (nat \<bar>?s\<bar>))"
      unfolding fval_def [of m "fadd m r x"] mg sg g(2) ..
    also have "\<dots> = ?s" by simp
    finally show ?thesis using mg g(1) by simp
  qed
qed

lemma foldl_fadd_exact:
  fixes r :: "'a::len word"
  assumes "fmag r < inf_mag LENGTH('a) m" and "sums_exact m (fval m r) xs"
  shows "fmag (foldl (fadd m) r xs) < inf_mag LENGTH('a) m \<and>
         fval m (foldl (fadd m) r xs) = fval m r + sum_list (map (fval m) xs)"
  using assms
proof (induction xs arbitrary: r)
  case Nil
  then show ?case by simp
next
  case (Cons x xs)
  from Cons.prems have x: "fmag x < inf_mag LENGTH('a) m"
    and rep: "representable LENGTH('a) m (nat \<bar>fval m r + fval m x\<bar>)"
    and rest: "sums_exact m (fval m r + fval m x) xs"
    by simp_all
  from fadd_exact_step [OF Cons.prems(1) x rep]
  have step: "fmag (fadd m r x) < inf_mag LENGTH('a) m"
    "fval m (fadd m r x) = fval m r + fval m x" by simp_all
  from Cons.IH [OF step(1)] rest step(2) show ?case by simp
qed

lemma sum_fold_exact:
  fixes T :: "('a::len word, 'z) dtype_scheme"
  assumes T: "dt_add T = fadd m" and z: "0 < inf_mag LENGTH('a) m" and xs: "sums_exact m 0 xs"
  shows "\<not> is_nan m (foldl (sum_Reduce T) 0 xs) \<and>
         fval m (foldl (sum_Reduce T) 0 xs) = sum_list (map (fval m) xs)"
proof -
  have f: "sum_Reduce T = fadd m" by (intro ext) (simp add: sum_Reduce_def T)
  have z0: "fmag (0 :: 'a word) = 0" "fval m (0 :: 'a word) = 0"
    by (simp_all add: fmag_def fval_def fexact_0)
  from foldl_fadd_exact [of 0 m xs] z xs z0 show ?thesis
    by (simp add: f is_nan_def)
qed

lemma sum_fold_exact_order:
  fixes T :: "('a::len word, 'z) dtype_scheme"
  assumes T: "dt_add T = fadd m" and z: "0 < inf_mag LENGTH('a) m"
    and xs: "sums_exact m 0 xs" and ys: "sums_exact m 0 ys" and p: "mset xs = mset ys"
  shows "float_eq m (foldl (sum_Reduce T) 0 xs) (foldl (sum_Reduce T) 0 ys)"
proof -
  have "mset (map (fval m) xs) = mset (map (fval m) ys)" using p by simp
  then have "sum_list (map (fval m) xs) = sum_list (map (fval m) ys)"
    by (metis sum_mset_sum_list)
  with sum_fold_exact [OF T z xs] sum_fold_exact [OF T z ys] show ?thesis
    by (simp add: float_eq_def)
qed

lemma sum_Reduce_float_commute:
  fixes T :: "('a::len word, 'z) dtype_scheme"
  assumes T: "dt_add T = fadd m"
  shows "(\<not> (is_nan m x \<and> is_nan m y) \<longrightarrow> sum_Reduce T x y = sum_Reduce T y x) \<and>
         (is_nan m x \<or> is_nan m y \<longrightarrow> is_nan m (sum_Reduce T x y) \<and> is_nan m (sum_Reduce T y x))"
  using fadd_commute [of m x y]
  by (auto simp: sum_Reduce_def T fadd_nan is_nan_nan_operand)

text \<open>
  C6, as the source has it. \<^verbatim>\<open>sum::InitValue()\<close> is 0. Folding \<^verbatim>\<open>sum::Reduce\<close> from it
  over a sequence of \<^verbatim>\<open>int\<close> yields the arithmetic sum of the sequence modulo \<open>2 ^ 32\<close>
  (the arithmetic sum itself whenever that fits an \<^verbatim>\<open>int\<close>), the same for every
  order of the sequence: on \<^verbatim>\<open>int\<close> \<^verbatim>\<open>Reduce\<close> is associative and commutative. On
  \<^verbatim>\<open>float\<close> and \<^verbatim>\<open>double\<close> every step rounds: the fold over finite values yields
  their arithmetic sum, the same (as \<^verbatim>\<open>==\<close> compares) for every order, whenever each
  partial sum in the order taken is a value of the type; \<^verbatim>\<open>Reduce(a, b)\<close> and
  \<^verbatim>\<open>Reduce(b, a)\<close> leave the same bits unless both are NaN, and a NaN whenever one of
  them is. The sequence 3, 1, 4, 1, 5 reduces to 14 on \<^verbatim>\<open>int\<close>, \<^verbatim>\<open>float\<close> and
  \<^verbatim>\<open>double\<close>.
\<close>

theorem C6_sum_fold:
  "sum_InitValue DType_int = 0 \<and> sum_InitValue DType_float = 0 \<and> sum_InitValue DType_double = 0 \<and>
   foldl (sum_Reduce DType_int) (sum_InitValue DType_int) ns =
     word_of_int (sum_list (map sint ns)) \<and>
   (- (2 ^ 31) \<le> sum_list (map sint ns) \<and> sum_list (map sint ns) < 2 ^ 31 \<longrightarrow>
      sint (foldl (sum_Reduce DType_int) (sum_InitValue DType_int) ns) = sum_list (map sint ns)) \<and>
   (mset ns = mset ns' \<longrightarrow>
      foldl (sum_Reduce DType_int) (sum_InitValue DType_int) ns =
      foldl (sum_Reduce DType_int) (sum_InitValue DType_int) ns') \<and>
   sum_Reduce DType_int a b = sum_Reduce DType_int b a \<and>
   sum_Reduce DType_int (sum_Reduce DType_int a b) c =
     sum_Reduce DType_int a (sum_Reduce DType_int b c) \<and>
   (sums_exact 23 0 xs \<longrightarrow>
      \<not> is_nan 23 (foldl (sum_Reduce DType_float) (sum_InitValue DType_float) xs) \<and>
      fval 23 (foldl (sum_Reduce DType_float) (sum_InitValue DType_float) xs) =
        sum_list (map (fval 23) xs)) \<and>
   (sums_exact 23 0 xs \<and> sums_exact 23 0 xs' \<and> mset xs = mset xs' \<longrightarrow>
      dt_eq DType_float (foldl (sum_Reduce DType_float) (sum_InitValue DType_float) xs)
        (foldl (sum_Reduce DType_float) (sum_InitValue DType_float) xs')) \<and>
   (\<not> (is_nan 23 x \<and> is_nan 23 y) \<longrightarrow>
      sum_Reduce DType_float x y = sum_Reduce DType_float y x) \<and>
   (is_nan 23 x \<or> is_nan 23 y \<longrightarrow>
      is_nan 23 (sum_Reduce DType_float x y) \<and> is_nan 23 (sum_Reduce DType_float y x)) \<and>
   (sums_exact 52 0 ys \<longrightarrow>
      \<not> is_nan 52 (foldl (sum_Reduce DType_double) (sum_InitValue DType_double) ys) \<and>
      fval 52 (foldl (sum_Reduce DType_double) (sum_InitValue DType_double) ys) =
        sum_list (map (fval 52) ys)) \<and>
   (sums_exact 52 0 ys \<and> sums_exact 52 0 ys' \<and> mset ys = mset ys' \<longrightarrow>
      dt_eq DType_double (foldl (sum_Reduce DType_double) (sum_InitValue DType_double) ys)
        (foldl (sum_Reduce DType_double) (sum_InitValue DType_double) ys')) \<and>
   (\<not> (is_nan 52 u \<and> is_nan 52 v) \<longrightarrow>
      sum_Reduce DType_double u v = sum_Reduce DType_double v u) \<and>
   (is_nan 52 u \<or> is_nan 52 v \<longrightarrow>
      is_nan 52 (sum_Reduce DType_double u v) \<and> is_nan 52 (sum_Reduce DType_double v u)) \<and>
   foldl (sum_Reduce DType_int) (sum_InitValue DType_int) [3, 1, 4, 1, 5] = 14 \<and>
   foldl (sum_Reduce DType_float) (sum_InitValue DType_float)
     [0x40400000, 0x3F800000, 0x40800000, 0x3F800000, 0x40A00000] = 0x41600000 \<and>
   dt_of_int DType_float 14 = 0x41600000 \<and>
   foldl (sum_Reduce DType_double) (sum_InitValue DType_double)
     [0x4008000000000000, 0x3FF0000000000000, 0x4010000000000000, 0x3FF0000000000000,
      0x4014000000000000] = 0x402C000000000000 \<and>
   dt_of_int DType_double 14 = 0x402C000000000000"
proof -
  have fold: "foldl (sum_Reduce DType_int) 0 ms = word_of_int (sum_list (map sint ms))" for ms
    by (simp add: foldl_sum_Reduce_int word_of_int_sum_list_sint)
  have fits: "sint (foldl (sum_Reduce DType_int) 0 ns) = sum_list (map sint ns)"
    if "- (2 ^ 31) \<le> sum_list (map sint ns)" "sum_list (map sint ns) < 2 ^ 31"
    using that by (simp only: fold sint_word_of_int_fits)
  have perm: "foldl (sum_Reduce DType_int) 0 ns = foldl (sum_Reduce DType_int) 0 ns'"
    if "mset ns = mset ns'"
    using sum_list_mset_cong [OF that] by (simp add: foldl_sum_Reduce_int)
  have ac: "sum_Reduce DType_int (sum_Reduce DType_int a b) c =
       sum_Reduce DType_int a (sum_Reduce DType_int b c)"
    "sum_Reduce DType_int a b = sum_Reduce DType_int b a"
    by (simp_all add: sum_Reduce_def DType_int_def)
  have fa: "dt_add DType_float = fadd 23" and fe: "dt_eq DType_float = float_eq 23"
    and fz: "0 < inf_mag 32 23"
    by (simp_all add: DType_float_def inf_mag_def)
  have da: "dt_add DType_double = fadd 52" and de: "dt_eq DType_double = float_eq 52"
    and dz: "0 < inf_mag 64 52"
    by (simp_all add: DType_double_def inf_mag_def)
  have fx: "\<not> is_nan 23 (foldl (sum_Reduce DType_float) 0 xs) \<and>
      fval 23 (foldl (sum_Reduce DType_float) 0 xs) = sum_list (map (fval 23) xs)"
    if "sums_exact 23 0 xs"
    using fz that by (intro sum_fold_exact fa) simp_all
  have fo: "dt_eq DType_float (foldl (sum_Reduce DType_float) 0 xs)
      (foldl (sum_Reduce DType_float) 0 xs')"
    if "sums_exact 23 0 xs" "sums_exact 23 0 xs'" "mset xs = mset xs'"
    unfolding fe using fz that by (intro sum_fold_exact_order fa) simp_all
  have dx: "\<not> is_nan 52 (foldl (sum_Reduce DType_double) 0 ys) \<and>
      fval 52 (foldl (sum_Reduce DType_double) 0 ys) = sum_list (map (fval 52) ys)"
    if "sums_exact 52 0 ys"
    using dz that by (intro sum_fold_exact da) simp_all
  have do: "dt_eq DType_double (foldl (sum_Reduce DType_double) 0 ys)
      (foldl (sum_Reduce DType_double) 0 ys')"
    if "sums_exact 52 0 ys" "sums_exact 52 0 ys'" "mset ys = mset ys'"
    unfolding de using dz that by (intro sum_fold_exact_order da) simp_all
  note fc = sum_Reduce_float_commute [OF fa, of x y]
  note dc = sum_Reduce_float_commute [OF da, of u v]
  have i14: "foldl (sum_Reduce DType_int) 0 [3, 1, 4, 1, 5] = 14"
    by (simp add: sum_Reduce_def DType_int_def)
  have f14: "foldl (sum_Reduce DType_float) 0
     [0x40400000, 0x3F800000, 0x40800000, 0x3F800000, 0x40A00000] = 0x41600000"
    by (simp add: sum_Reduce_def DType_float_def fadd_steps_float)
  have d14: "foldl (sum_Reduce DType_double) 0
     [0x4008000000000000, 0x3FF0000000000000, 0x4010000000000000, 0x3FF0000000000000,
      0x4014000000000000] = 0x402C000000000000"
    by (simp add: sum_Reduce_def DType_double_def fadd_steps_double)
  have c14: "dt_of_int DType_float 14 = 0x41600000"
    "dt_of_int DType_double 14 = 0x402C000000000000"
    by (simp_all add: DType_float_def DType_double_def
        float_of_int_eq [where g = "0x41600000"] float_of_int_eq [where g = "0x402C000000000000"]
        float_eval)
  show ?thesis
    unfolding sum_InitValue_values
    using fold [of ns] fits perm ac fx fo dx do fc dc i14 f14 d14 c14 by blast
qed

text \<open>
  C6 at the sequence 3, 1, 4, 1, 5 and its reordering 5, 4, 3, 1, 1, on \<^verbatim>\<open>int\<close> and on
  \<^verbatim>\<open>float\<close>, and at the operands 3 and 1 of one \<^verbatim>\<open>Reduce\<close>.
\<close>

theorem C6_sum_fold_witness:
  "- (2 ^ 31) \<le> sum_list (map sint [3, 1, 4, 1, 5 :: int32]) \<and>
   sum_list (map sint [3, 1, 4, 1, 5 :: int32]) < 2 ^ 31 \<and>
   sint (foldl (sum_Reduce DType_int) (sum_InitValue DType_int) [3, 1, 4, 1, 5]) =
     sum_list (map sint [3, 1, 4, 1, 5 :: int32]) \<and>
   mset [3, 1, 4, 1, 5 :: int32] = mset [5, 4, 3, 1, 1] \<and>
   foldl (sum_Reduce DType_int) (sum_InitValue DType_int) [3, 1, 4, 1, 5] =
   foldl (sum_Reduce DType_int) (sum_InitValue DType_int) [5, 4, 3, 1, 1] \<and>
   sums_exact 23 0 [0x40400000, 0x3F800000, 0x40800000, 0x3F800000, 0x40A00000 :: float32] \<and>
   sums_exact 23 0 [0x40A00000, 0x40800000, 0x40400000, 0x3F800000, 0x3F800000 :: float32] \<and>
   fval 23 (foldl (sum_Reduce DType_float) (sum_InitValue DType_float)
     [0x40400000, 0x3F800000, 0x40800000, 0x3F800000, 0x40A00000]) =
     sum_list (map (fval 23) [0x40400000, 0x3F800000, 0x40800000, 0x3F800000, 0x40A00000 :: float32]) \<and>
   dt_eq DType_float
     (foldl (sum_Reduce DType_float) (sum_InitValue DType_float)
        [0x40400000, 0x3F800000, 0x40800000, 0x3F800000, 0x40A00000])
     (foldl (sum_Reduce DType_float) (sum_InitValue DType_float)
        [0x40A00000, 0x40800000, 0x40400000, 0x3F800000, 0x3F800000]) \<and>
   \<not> (is_nan 23 (0x40400000 :: float32) \<and> is_nan 23 (0x3F800000 :: float32)) \<and>
   sum_Reduce DType_float 0x40400000 0x3F800000 = sum_Reduce DType_float 0x3F800000 0x40400000 \<and>
   is_nan 23 (0x7FC00001 :: float32) \<and>
   is_nan 23 (sum_Reduce DType_float 0x7FC00001 0x3F800000)"
proof -
  have r: "- (2 ^ 31) \<le> sum_list (map sint [3, 1, 4, 1, 5 :: int32])"
    "sum_list (map sint [3, 1, 4, 1, 5 :: int32]) < 2 ^ 31"
    by simp_all
  have m: "mset [3, 1, 4, 1, 5 :: int32] = mset [5, 4, 3, 1, 1]"
    "mset [0x40400000, 0x3F800000, 0x40800000, 0x3F800000, 0x40A00000 :: float32] =
     mset [0x40A00000, 0x40800000, 0x40400000, 0x3F800000, 0x3F800000]"
    by (simp_all add: add_mset_commute)
  have e: "sums_exact 23 0 [0x40400000, 0x3F800000, 0x40800000, 0x3F800000, 0x40A00000 :: float32]"
    "sums_exact 23 0 [0x40A00000, 0x40800000, 0x40400000, 0x3F800000, 0x3F800000 :: float32]"
    by (simp_all add: float_eval
        representableI [where g = "0x40400000"] representableI [where g = "0x40800000"]
        representableI [where g = "0x41000000"] representableI [where g = "0x41100000"]
        representableI [where g = "0x41600000"] representableI [where g = "0x40A00000"]
        representableI [where g = "0x41400000"] representableI [where g = "0x41500000"])
  have n: "\<not> (is_nan 23 (0x40400000 :: float32) \<and> is_nan 23 (0x3F800000 :: float32))"
    "is_nan 23 (0x7FC00001 :: float32)"
    by (simp_all add: float_eval)
  note T = C6_sum_fold [of "[3, 1, 4, 1, 5]" "[5, 4, 3, 1, 1]" _ _ _
      "[0x40400000, 0x3F800000, 0x40800000, 0x3F800000, 0x40A00000]"
      "[0x40A00000, 0x40800000, 0x40400000, 0x3F800000, 0x3F800000]" "0x40400000" "0x3F800000"]
    C6_sum_fold [of "[]" "[]" _ _ _ "[]" "[]" "0x7FC00001" "0x3F800000"]
  from T r m e n show ?thesis by blast
qed

text \<open>
  C6 as the specification states it (the fold is the arithmetic sum, whatever the order)
  fails for \<^verbatim>\<open>float\<close>: 16777216, 1, 1 folds to 16777216 (\<open>0x4B800000\<close>: each addition
  of 1 is rounded away), the same values in the order 1, 1, 16777216 fold to 16777218
  (\<open>0x4B800001\<close>).
\<close>

theorem C6_counterexample:
  "foldl (sum_Reduce DType_float) (sum_InitValue DType_float)
     [0x4B800000, 0x3F800000, 0x3F800000] = 0x4B800000 \<and>
   foldl (sum_Reduce DType_float) (sum_InitValue DType_float)
     [0x3F800000, 0x3F800000, 0x4B800000] = 0x4B800001 \<and>
   foldl (sum_Reduce DType_float) (sum_InitValue DType_float)
     [0x4B800000, 0x3F800000, 0x3F800000] \<noteq>
   foldl (sum_Reduce DType_float) (sum_InitValue DType_float)
     [0x3F800000, 0x3F800000, 0x4B800000] \<and>
   mset [0x4B800000, 0x3F800000, 0x3F800000 :: float32] =
   mset [0x3F800000, 0x3F800000, 0x4B800000]"
  unfolding sum_InitValue_values
  by (simp add: sum_Reduce_def DType_float_def fadd_steps_order fadd_rounds)

section \<open>The BLAS constants of \<^verbatim>\<open>minusto\<close>\<close>

lemma blas_int_steps:
  "sint (- 1 :: int32) = - 1" "sint (16777217 :: int32) = 16777217"
  "sint (16777218 :: int32) = 16777218"
  "float_of_int 23 (- 1) = (0xBF800000 :: float32)"
  "float_of_int 23 16777217 = (0x4B800000 :: float32)"
  "float_of_int 23 16777218 = (0x4B800001 :: float32)"
  "fmul 23 (0xBF800000 :: float32) 0xBF800000 = 0x3F800000"
  "fmul 23 (0x3F800000 :: float32) 0x4B800000 = 0x4B800000"
  "fadd 23 (0x3F800000 :: float32) 0x4B800000 = 0x4B800000"
proof -
  show "sint (- 1 :: int32) = - 1" "sint (16777217 :: int32) = 16777217"
    "sint (16777218 :: int32) = 16777218"
    by simp_all
  show "float_of_int 23 (- 1) = (0xBF800000 :: float32)"
    by (simp add: float_of_int_float)
  show "float_of_int 23 16777217 = (0x4B800000 :: float32)"
    by (simp add: float_of_int_def float_eval fround_bitlen [where k = 173] round_half_even_def)
  show "float_of_int 23 16777218 = (0x4B800001 :: float32)"
    by (simp add: float_of_int_eq [where g = "0x4B800001"] float_eval)
  show "fmul 23 (0xBF800000 :: float32) 0xBF800000 = 0x3F800000"
    using fmul_minus_one [of 23 "0xBF800000 :: float32" "0xBF800000"] minus_one_float
    by (simp add: fneg_def float_eval)
  show "fmul 23 (0x3F800000 :: float32) 0x4B800000 = 0x4B800000"
    using fmul_one [of 23 "0x3F800000 :: float32" "0x4B800000"] one_float
    by (simp add: float_eval)
  show "fadd 23 (0x3F800000 :: float32) 0x4B800000 = 0x4B800000"
    using fadd_commute [of 23 "0x3F800000 :: float32" "0x4B800000"] fadd_rounds
    by (simp add: float_eval)
qed

text \<open>
  C9, as the source has it. \<^verbatim>\<open>minusto::AlphaBLAS()\<close> is \<open>-1.0\<close> and
  \<^verbatim>\<open>minusto::BetaBLAS()\<close> is \<open>1.0\<close>, both \<^verbatim>\<open>default_real_t\<close>. For all \<^verbatim>\<open>float\<close> values
  \<open>dest_old\<close>, \<open>src\<close> that are not both NaN (and all such \<^verbatim>\<open>double\<close> values, the
  constants converted to \<^verbatim>\<open>double\<close>) \<^verbatim>\<open>minusto::Save(dest, src)\<close> started with
  \<open>dest = dest_old\<close> leaves in \<open>dest\<close>, bit for bit, the value of
  \<^verbatim>\<open>AlphaBLAS() * src + BetaBLAS() * dest_old\<close>. When both are NaN, both sides are NaN.
\<close>

theorem C9_minusto_BLAS:
  "minusto_AlphaBLAS = 0xBF800000 \<and> minusto_AlphaBLAS = float_of_int 23 (- 1) \<and>
   minusto_BetaBLAS = 0x3F800000 \<and> minusto_BetaBLAS = float_of_int 23 1 \<and>
   AlphaBLAS sv_minusto = Some minusto_AlphaBLAS \<and>
   BetaBLAS sv_minusto = Some minusto_BetaBLAS \<and>
   (\<not> (is_nan 23 dest_old \<and> is_nan 23 src) \<longrightarrow>
      minusto_Save DType_float dest_old src =
        dt_add DType_float (dt_mul DType_float minusto_AlphaBLAS src)
          (dt_mul DType_float minusto_BetaBLAS dest_old)) \<and>
   (is_nan 23 dest_old \<and> is_nan 23 src \<longrightarrow>
      is_nan 23 (minusto_Save DType_float dest_old src) \<and>
      is_nan 23 (dt_add DType_float (dt_mul DType_float minusto_AlphaBLAS src)
          (dt_mul DType_float minusto_BetaBLAS dest_old))) \<and>
   (\<not> (is_nan 52 d \<and> is_nan 52 s) \<longrightarrow>
      minusto_Save DType_double d s =
        dt_add DType_double (dt_mul DType_double (double_of_float minusto_AlphaBLAS) s)
          (dt_mul DType_double (double_of_float minusto_BetaBLAS) d)) \<and>
   (is_nan 52 d \<and> is_nan 52 s \<longrightarrow>
      is_nan 52 (minusto_Save DType_double d s) \<and>
      is_nan 52 (dt_add DType_double (dt_mul DType_double (double_of_float minusto_AlphaBLAS) s)
          (dt_mul DType_double (double_of_float minusto_BetaBLAS) d)))"
proof -
  have f: "fsub 23 dest_old src =
      fadd 23 (fmul 23 0xBF800000 src) (fmul 23 0x3F800000 dest_old)"
    if "\<not> (is_nan 23 dest_old \<and> is_nan 23 src)"
    using minus_one_float one_float that by (intro blas_minus_form) simp_all
  have d: "fsub 52 d s =
      fadd 52 (fmul 52 0xBFF0000000000000 s) (fmul 52 0x3FF0000000000000 d)"
    if "\<not> (is_nan 52 d \<and> is_nan 52 s)"
    using minus_one_double one_double that by (intro blas_minus_form) simp_all
  note fn = blas_minus_form_nan [of 23 dest_old src "0xBF800000" "0x3F800000"]
  note dn = blas_minus_form_nan [of 52 d s "0xBFF0000000000000" "0x3FF0000000000000"]
  show ?thesis
    using f d fn dn
    by (simp add: minusto_AlphaBLAS_bits minusto_BetaBLAS_def float_of_int_float
        minusto_Save_def DType_float_def DType_double_def double_of_float_one)
qed

text \<open>
  C9 at \<open>dest_old = 10\<close>, \<open>src = 4\<close> (both sides are 6, \<open>0x40C00000\<close>) and at two NaN.
\<close>

theorem C9_minusto_BLAS_witness:
  "\<not> (is_nan 23 (0x41200000 :: float32) \<and> is_nan 23 (0x40800000 :: float32)) \<and>
   minusto_Save DType_float 0x41200000 0x40800000 =
     dt_add DType_float (dt_mul DType_float minusto_AlphaBLAS 0x40800000)
       (dt_mul DType_float minusto_BetaBLAS 0x41200000) \<and>
   minusto_Save DType_float 0x41200000 0x40800000 = 0x40C00000 \<and>
   is_nan 23 (0x7FC00001 :: float32) \<and> is_nan 23 (0x7FC00002 :: float32) \<and>
   is_nan 23 (minusto_Save DType_float 0x7FC00001 0x7FC00002)"
proof -
  have f: "\<not> is_nan 23 (0x41200000 :: float32)" "\<not> is_nan 23 (0x40800000 :: float32)"
    by (simp_all add: float_eval)
  then have n: "\<not> (is_nan 23 (0x41200000 :: float32) \<and> is_nan 23 (0x40800000 :: float32))"
    by simp
  have q: "is_nan 23 (0x7FC00001 :: float32)" "is_nan 23 (0x7FC00002 :: float32)"
    by (simp_all add: float_eval)
  have "fadd 23 (0x41200000 :: float32) (fneg 0x40800000) = 0x40C00000"
    by (rule fadd_val; simp add: fneg_def float_eval)
  then have v: "minusto_Save DType_float 0x41200000 0x40800000 = 0x40C00000"
    using f by (simp add: minusto_Save_def DType_float_def fsub_def)
  note T = C9_minusto_BLAS [of "0x41200000" "0x40800000"]
    C9_minusto_BLAS [of "0x7FC00001" "0x7FC00002"]
  from T n q v show ?thesis by blast
qed

text \<open>
  C9 as the claim states it (for all values) fails at two NaN of \<^verbatim>\<open>float\<close>:
  \<^verbatim>\<open>Save\<close> leaves the NaN of \<open>dest_old\<close> (\<open>0x7FC00001\<close>), the BLAS form gives the NaN of
  \<open>src\<close> (\<open>0x7FC00002\<close>). It fails on \<^verbatim>\<open>int\<close> too, where the form is \<^verbatim>\<open>float\<close>
  arithmetic on the converted operands: at \<open>dest_old = 16777217\<close>, \<open>src = -1\<close> \<^verbatim>\<open>Save\<close>
  leaves 16777218, which is the \<^verbatim>\<open>float\<close> \<open>0x4B800001\<close>, and the form gives 16777216,
  \<open>0x4B800000\<close>.
\<close>

theorem C9_counterexample:
  "minusto_Save DType_float 0x7FC00001 0x7FC00002 = 0x7FC00001 \<and>
   dt_add DType_float (dt_mul DType_float minusto_AlphaBLAS 0x7FC00002)
     (dt_mul DType_float minusto_BetaBLAS 0x7FC00001) = 0x7FC00002 \<and>
   minusto_Save DType_int 16777217 (- 1) = 16777218 \<and>
   dt_of_int DType_float (sint (minusto_Save DType_int 16777217 (- 1))) = 0x4B800001 \<and>
   dt_add DType_float
     (dt_mul DType_float minusto_AlphaBLAS (dt_of_int DType_float (sint (- 1 :: int32))))
     (dt_mul DType_float minusto_BetaBLAS (dt_of_int DType_float (sint (16777217 :: int32)))) =
     0x4B800000"
proof -
  have nan: "fsub 23 (0x7FC00001 :: float32) 0x7FC00002 = 0x7FC00001"
    "fadd 23 (fmul 23 0xBF800000 0x7FC00002) (fmul 23 0x3F800000 (0x7FC00001 :: float32)) =
      0x7FC00002"
    by (simp_all add: fsub_def fadd_def fmul_def nan_operand_def quiet_def float_eval)
  have i: "minusto_Save DType_int 16777217 (- 1) = 16777218"
    by (simp add: minusto_Save_def DType_int_def)
  show ?thesis
    unfolding i
    using nan
    by (simp add: minusto_Save_def minusto_AlphaBLAS_bits minusto_BetaBLAS_def DType_float_def
        blas_int_steps)
qed

section \<open>Outcomes\<close>

lemma fdiv_by_zero:
  fixes x y :: "'a::len word"
  assumes q: "is_nan m (default_nan m :: 'a word)" and y: "fmag y = 0" and i0: "0 < inf_mag LENGTH('a) m"
  shows "is_inf m (fdiv m x y) \<or> is_nan m (fdiv m x y)"
proof -
  have inf: "is_inf m (fmk s (inf_mag LENGTH('a) m) :: 'a word)" for s
    using inf_mag_less [where 'a = 'a, of m] by (simp add: is_inf_def fmag_fmk)
  have ny: "\<not> is_nan m y" "\<not> is_inf m y" using y i0 by (simp_all add: is_nan_def is_inf_def)
  show ?thesis
  proof (cases "is_nan m x")
    case True
    then show ?thesis by (simp add: fdiv_nan is_nan_nan_operand)
  next
    case False
    then show ?thesis using q inf ny y by (simp add: fdiv_def)
  qed
qed

lemma int_div_None: "int_div i j = None \<longleftrightarrow> j = 0 \<or> (i = INT_MIN \<and> j = - 1)"
  by (simp add: int_div_def)

text \<open>
  C8. Every call of the core has an outcome, for every numeric type, except
  \<^verbatim>\<open>div::Map\<close> and \<^verbatim>\<open>divto::Save\<close> at operands where the division of the numeric type
  itself is undefined. On \<^verbatim>\<open>float\<close> and \<^verbatim>\<open>double\<close> there is no such operand: a
  division by zero returns an infinity or a NaN. On \<^verbatim>\<open>int\<close> the operands are the
  divisor 0 and \<^verbatim>\<open>INT_MIN / -1\<close>.
\<close>

theorem C8_no_error_path:
  "(outcome T c = None \<longleftrightarrow>
      (\<exists>a b. (c = Call_Map op_div a b \<or> c = Call_Save sv_divto a b) \<and> dt_div T a b = None)) \<and>
   outcome DType_float cf \<noteq> None \<and> outcome DType_double cd \<noteq> None \<and>
   (outcome DType_int ci = None \<longleftrightarrow>
      (\<exists>a b. (ci = Call_Map op_div a b \<or> ci = Call_Save sv_divto a b) \<and>
         (b = 0 \<or> (a = INT_MIN \<and> b = - 1)))) \<and>
   (fmag y = 0 \<longrightarrow>
      (\<exists>r. div_Map DType_float x y = Some r \<and> divto_Save DType_float x y = Some r \<and>
         (is_inf 23 r \<or> is_nan 23 r))) \<and>
   (fmag v = 0 \<longrightarrow>
      (\<exists>r. div_Map DType_double u v = Some r \<and> divto_Save DType_double u v = Some r \<and>
         (is_inf 52 r \<or> is_nan 52 r)))"
proof -
  have gen: "outcome T c = None \<longleftrightarrow>
      (\<exists>a b. (c = Call_Map op_div a b \<or> c = Call_Save sv_divto a b) \<and> dt_div T a b = None)"
    for T :: "'b limits" and c
    by (cases c) (auto simp: op_Map_total sv_Save_total)
  have f: "dt_div DType_float a b \<noteq> None" for a b
    by (simp add: DType_float_def float_div_def)
  have d: "dt_div DType_double a b \<noteq> None" for a b
    by (simp add: DType_double_def float_div_def)
  have i: "dt_div DType_int a b = None \<longleftrightarrow> b = 0 \<or> (a = INT_MIN \<and> b = - 1)" for a b
    by (simp add: DType_int_def int_div_None)
  have zf: "is_inf 23 (fdiv 23 x y) \<or> is_nan 23 (fdiv 23 x y)" if "fmag y = 0"
    using that default_nan_float(2) by (intro fdiv_by_zero) (simp_all add: inf_mag_def)
  have zd: "is_inf 52 (fdiv 52 u v) \<or> is_nan 52 (fdiv 52 u v)" if "fmag v = 0"
    using that default_nan_double(2) by (intro fdiv_by_zero) (simp_all add: inf_mag_def)
  show ?thesis
    using zf zd
    by (simp add: gen f d i div_Map_def divto_Save_def DType_float_def DType_double_def
        float_div_def)
qed

text \<open>C8 at \<open>1.0 / 0.0\<close> on \<^verbatim>\<open>float\<close> and \<^verbatim>\<open>double\<close> and at \<open>1 / 0\<close> on \<^verbatim>\<open>int\<close>.\<close>

theorem C8_no_error_path_witness:
  "fmag (0 :: float32) = 0 \<and>
   (\<exists>r. div_Map DType_float 0x3F800000 0 = Some r \<and> (is_inf 23 r \<or> is_nan 23 r)) \<and>
   fmag (0 :: float64) = 0 \<and>
   (\<exists>r. div_Map DType_double 0x3FF0000000000000 0 = Some r \<and> (is_inf 52 r \<or> is_nan 52 r)) \<and>
   outcome DType_int (Call_Map op_div 1 0) = None \<and>
   outcome DType_float (Call_Map op_div 0x3F800000 0) \<noteq> None"
proof -
  have z: "fmag (0 :: float32) = 0" "fmag (0 :: float64) = 0" by (simp_all add: fmag_def)
  note T = C8_no_error_path [of DType_int "Call_Map op_div 1 0" "Call_Map op_div 0x3F800000 0" _
      "Call_Map op_div 1 0" 0 "0x3F800000" 0 "0x3FF0000000000000"]
  from T z show ?thesis by blast
qed

end
